theory Spec2Isabelle
  imports Main "HOL-Library.Word" "HOL-Library.Sublist"
begin

section \<open>Python values: exceptions, strings, bytes\<close>

text \<open>
  The exception classes that \<^verbatim>\<open>cuj_catalog.py\<close> and the library calls it makes can raise.
  Messages are not modelled, only the class.
\<close>

datatype error =
    RuntimeError
  | SystemExit
  | AssertionError
  | NameError
  | ValueError
  | FileNotFoundError
  | FileExistsError
  | IsADirectoryError
  | NotADirectoryError
  | OSError
  | UnicodeEncodeError
  | UnicodeDecodeError
  | ReError
  | ExternalError string

text \<open>
  A Python \<^verbatim>\<open>str\<close> is a sequence of code points, and \<^verbatim>\<open>len\<close> counts code points.
  A file holds bytes.
\<close>

type_synonym pystr = "nat list"
type_synonym byte = "8 word"

definition ascii :: "string \<Rightarrow> pystr" where
  "ascii s = map of_char s"

text \<open>The UTF-8 codec (the encoding the source assumes for its text-mode files).\<close>

definition utf8_encode_cp :: "nat \<Rightarrow> byte list option" where
  "utf8_encode_cp c =
     (if c < 0x80 then Some [of_nat c]
      else if c < 0x800 then Some [of_nat (0xC0 + c div 64), of_nat (0x80 + c mod 64)]
      else if c < 0x10000 then
        (if 0xD800 \<le> c \<and> c \<le> 0xDFFF then None
         else Some [of_nat (0xE0 + c div 4096), of_nat (0x80 + (c div 64) mod 64),
                    of_nat (0x80 + c mod 64)])
      else if c < 0x110000 then
        Some [of_nat (0xF0 + c div 262144), of_nat (0x80 + (c div 4096) mod 64),
              of_nat (0x80 + (c div 64) mod 64), of_nat (0x80 + c mod 64)]
      else None)"

fun utf8_encode :: "pystr \<Rightarrow> byte list option" where
  "utf8_encode [] = Some []"
| "utf8_encode (c # cs) =
     (case utf8_encode_cp c of
        None \<Rightarrow> None
      | Some bs \<Rightarrow> (case utf8_encode cs of None \<Rightarrow> None | Some rest \<Rightarrow> Some (bs @ rest)))"

definition is_cont :: "byte \<Rightarrow> bool" where
  "is_cont b = (0x80 \<le> b \<and> b \<le> 0xBF)"

definition cont_bits :: "byte \<Rightarrow> nat" where
  "cont_bits b = unat b mod 64"

fun utf8_decode :: "byte list \<Rightarrow> pystr option" where
  "utf8_decode [] = Some []"
| "utf8_decode (b # bs) =
     (if b < 0x80 then map_option ((#) (unat b)) (utf8_decode bs)
      else if 0xC2 \<le> b \<and> b \<le> 0xDF then
        (case bs of
           b1 # r \<Rightarrow>
             if is_cont b1
             then map_option ((#) ((unat b - 0xC0) * 64 + cont_bits b1)) (utf8_decode r)
             else None
         | _ \<Rightarrow> None)
      else if 0xE0 \<le> b \<and> b \<le> 0xEF then
        (case bs of
           b1 # b2 # r \<Rightarrow>
             if is_cont b1 \<and> is_cont b2 \<and> (b = 0xE0 \<longrightarrow> 0xA0 \<le> b1)
                \<and> (b = 0xED \<longrightarrow> b1 \<le> 0x9F)
             then map_option
                    ((#) ((unat b - 0xE0) * 4096 + cont_bits b1 * 64 + cont_bits b2))
                    (utf8_decode r)
             else None
         | _ \<Rightarrow> None)
      else if 0xF0 \<le> b \<and> b \<le> 0xF4 then
        (case bs of
           b1 # b2 # b3 # r \<Rightarrow>
             if is_cont b1 \<and> is_cont b2 \<and> is_cont b3 \<and> (b = 0xF0 \<longrightarrow> 0x90 \<le> b1)
                \<and> (b = 0xF4 \<longrightarrow> b1 \<le> 0x8F)
             then map_option
                    ((#) ((unat b - 0xF0) * 262144 + cont_bits b1 * 4096
                          + cont_bits b2 * 64 + cont_bits b3))
                    (utf8_decode r)
             else None
         | _ \<Rightarrow> None)
      else None)"

text \<open>
  Reading in text mode with the default \<^verbatim>\<open>newline=None\<close> translates every
  \<^verbatim>\<open>\r\n\<close> and every lone \<^verbatim>\<open>\r\<close> to \<^verbatim>\<open>\n\<close>. Writing on POSIX translates nothing.
\<close>

fun universal_newlines :: "pystr \<Rightarrow> pystr" where
  "universal_newlines [] = []"
| "universal_newlines [c] = (if c = 13 then [10] else [c])"
| "universal_newlines (c # d # cs) =
     (if c = 13 \<and> d = 10 then 10 # universal_newlines cs
      else if c = 13 then 10 # universal_newlines (d # cs)
      else c # universal_newlines (d # cs))"

text \<open>\<^verbatim>\<open>str(n)\<close> for a non-negative integer.\<close>

definition digit_char :: "nat \<Rightarrow> char" where
  "digit_char d = ''0123456789'' ! d"

fun str_of_nat :: "nat \<Rightarrow> string" where
  "str_of_nat n = (if n < 10 then [digit_char n] else str_of_nat (n div 10) @ [digit_char (n mod 10)])"

declare str_of_nat.simps [simp del]

text \<open>
  \<^verbatim>\<open>str(uuid.uuid4())\<close>: 128 random bits with the version nibble forced to 4 and the
  variant bits to binary 10, printed as 32 lower-case hexadecimal digits in groups of
  8-4-4-4-12. The random bits are a parameter \<open>r\<close>.
\<close>

definition hex_char :: "nat \<Rightarrow> char" where
  "hex_char d = ''0123456789abcdef'' ! d"

fun hex_digits :: "nat \<Rightarrow> nat \<Rightarrow> string" where
  "hex_digits 0 v = []"
| "hex_digits (Suc k) v = hex_digits k (v div 16) @ [hex_char (v mod 16)]"

definition uuid4 :: "nat \<Rightarrow> nat" where
  "uuid4 r =
     (r div 2 ^ 80 mod 2 ^ 48) * 2 ^ 80 + 4 * 2 ^ 76 + (r div 2 ^ 64 mod 2 ^ 12) * 2 ^ 64
     + 2 * 2 ^ 62 + r mod 2 ^ 62"

definition uuid_str :: "nat \<Rightarrow> string" where
  "uuid_str u =
     hex_digits 8 (u div 2 ^ 96) @ ''-'' @ hex_digits 4 (u div 2 ^ 80) @ ''-''
     @ hex_digits 4 (u div 2 ^ 64) @ ''-'' @ hex_digits 4 (u div 2 ^ 48) @ ''-''
     @ hex_digits 12 u"

section \<open>Paths and the filesystem\<close>

text \<open>
  A path is absolute and is the list of its components below the root; \<open>[]\<close> is the root.
  The filesystem is a tree of regular files and directories (no symbolic links).
\<close>

type_synonym path = "string list"

datatype node = File "byte list" | Dir "string \<Rightarrow> node option"

text \<open>\<^verbatim>\<open>Path.name\<close>, \<^verbatim>\<open>Path.parent\<close>, \<^verbatim>\<open>Path.parents\<close>, \<^verbatim>\<open>is_relative_to\<close>.\<close>

definition name :: "path \<Rightarrow> string" where
  "name p = (if p = [] then [] else last p)"

definition parent :: "path \<Rightarrow> path" where
  "parent p = butlast p"

fun parents :: "path \<Rightarrow> path list" where
  "parents p = (if p = [] then [] else butlast p # parents (butlast p))"

declare parents.simps [simp del]

definition is_relative_to :: "path \<Rightarrow> path \<Rightarrow> bool" where
  "is_relative_to p q = prefix q p"

text \<open>\<^verbatim>\<open>with_name\<close> raises \<^verbatim>\<open>ValueError\<close> on a path with an empty name.\<close>

definition with_name :: "path \<Rightarrow> string \<Rightarrow> error + path" where
  "with_name p n = (if name p = [] then Inl ValueError else Inr (butlast p @ [n]))"

text \<open>\<^verbatim>\<open>os.stat\<close>: resolving a path to the node it names.\<close>

fun stat :: "node \<Rightarrow> path \<Rightarrow> error + node" where
  "stat n [] = Inr n"
| "stat (File b) (c # cs) = Inl NotADirectoryError"
| "stat (Dir m) (c # cs) =
     (case m c of None \<Rightarrow> Inl FileNotFoundError | Some n \<Rightarrow> stat n cs)"

text \<open>\<^verbatim>\<open>Path.exists\<close> is false when \<^verbatim>\<open>stat\<close> fails.\<close>

definition exists_path :: "node \<Rightarrow> path \<Rightarrow> bool" where
  "exists_path fs p = (case stat fs p of Inl _ \<Rightarrow> False | Inr _ \<Rightarrow> True)"

definition is_dir :: "node \<Rightarrow> path \<Rightarrow> bool" where
  "is_dir fs p = (case stat fs p of Inr (Dir _) \<Rightarrow> True | _ \<Rightarrow> False)"

text \<open>
  One system call on the directory entry a path names: the function \<open>f\<close> maps the entry
  (\<open>None\<close> when the name is free) to the new entry or to an error. The directory holding
  the entry must exist. The root is no entry of any directory: a call that would remove it
  fails.
\<close>

fun alter :: "(node option \<Rightarrow> error + node option) \<Rightarrow> node \<Rightarrow> path \<Rightarrow> error + node" where
  "alter f n [] =
     (case f (Some n) of Inl e \<Rightarrow> Inl e | Inr None \<Rightarrow> Inl OSError | Inr (Some n') \<Rightarrow> Inr n')"
| "alter f (File b) (c # cs) = Inl NotADirectoryError"
| "alter f (Dir m) [c] =
     (case f (m c) of Inl e \<Rightarrow> Inl e | Inr v \<Rightarrow> Inr (Dir (m(c := v))))"
| "alter f (Dir m) (c # d # cs) =
     (case m c of
        None \<Rightarrow> Inl FileNotFoundError
      | Some n \<Rightarrow>
          (case alter f n (d # cs) of
             Inl e \<Rightarrow> Inl e
           | Inr n' \<Rightarrow> Inr (Dir (m(c \<mapsto> n')))))"


text \<open>
  \<^verbatim>\<open>Path.joinpath\<close> with one string: the string is split at its slashes, empty and
  \<^verbatim>\<open>.\<close> components are dropped, and a string that starts with a slash replaces the path.
\<close>

fun split_slash :: "string \<Rightarrow> string list" where
  "split_slash [] = [[]]"
| "split_slash (c # cs) =
     (if c = CHR ''/'' then [] # split_slash cs
      else (case split_slash cs of [] \<Rightarrow> [[c]] | x # xs \<Rightarrow> (c # x) # xs))"

definition parse_parts :: "string \<Rightarrow> path" where
  "parse_parts s = filter (\<lambda>c. c \<noteq> [] \<and> c \<noteq> ''.'') (split_slash s)"

definition joinpath :: "path \<Rightarrow> string \<Rightarrow> path" where
  "joinpath p s = (if s \<noteq> [] \<and> hd s = CHR ''/'' then parse_parts s else p @ parse_parts s)"

text \<open>
  \<^verbatim>\<open>mkdir(parents=True, exist_ok=True)\<close>: every missing directory on the way is made; a
  regular file on the way, or at the end, is an error.
\<close>

fun mkdir_parents :: "node \<Rightarrow> path \<Rightarrow> error + node" where
  "mkdir_parents (File b) [] = Inl FileExistsError"
| "mkdir_parents (Dir m) [] = Inr (Dir m)"
| "mkdir_parents (File b) (c # cs) = Inl NotADirectoryError"
| "mkdir_parents (Dir m) (c # cs) =
     (case (case m c of None \<Rightarrow> mkdir_parents (Dir Map.empty) cs
                       | Some n \<Rightarrow> mkdir_parents n cs) of
        Inl e \<Rightarrow> Inl e
      | Inr n' \<Rightarrow> Inr (Dir (m(c \<mapsto> n'))))"

text \<open>The entry functions of the system calls the recipes make.\<close>

definition touch_entry :: "node option \<Rightarrow> error + node option" where
  \<comment> \<open>\<^verbatim>\<open>touch(exist_ok=False)\<close>\<close>
  "touch_entry e = (case e of None \<Rightarrow> Inr (Some (File [])) | Some n \<Rightarrow> Inl FileExistsError)"

definition write_entry :: "byte list \<Rightarrow> node option \<Rightarrow> error + node option" where
  \<comment> \<open>\<^verbatim>\<open>open(file, mode="w")\<close> and a write of \<open>bs\<close>\<close>
  "write_entry bs e =
     (case e of
        None \<Rightarrow> Inr (Some (File bs))
      | Some (File old) \<Rightarrow> Inr (Some (File bs))
      | Some (Dir m) \<Rightarrow> Inl IsADirectoryError)"

definition unlink_entry :: "node option \<Rightarrow> error + node option" where
  \<comment> \<open>\<^verbatim>\<open>unlink(missing_ok=False)\<close>\<close>
  "unlink_entry e =
     (case e of
        None \<Rightarrow> Inl FileNotFoundError
      | Some (File old) \<Rightarrow> Inr None
      | Some (Dir m) \<Rightarrow> Inl IsADirectoryError)"

definition rmtree_entry :: "node option \<Rightarrow> error + node option" where
  \<comment> \<open>\<^verbatim>\<open>shutil.rmtree\<close>\<close>
  "rmtree_entry e =
     (case e of
        None \<Rightarrow> Inl FileNotFoundError
      | Some (File old) \<Rightarrow> Inl NotADirectoryError
      | Some (Dir m) \<Rightarrow> Inr None)"

definition rename_entry :: "node \<Rightarrow> node option \<Rightarrow> error + node option" where
  \<comment> \<open>the target side of \<^verbatim>\<open>os.rename\<close> of the node \<open>n\<close>\<close>
  "rename_entry n e =
     (case e of
        None \<Rightarrow> Inr (Some n)
      | Some (File old) \<Rightarrow>
          (case n of File b \<Rightarrow> Inr (Some n) | Dir m \<Rightarrow> Inl NotADirectoryError)
      | Some (Dir m') \<Rightarrow>
          (case n of
             File b \<Rightarrow> Inl IsADirectoryError
           | Dir m \<Rightarrow> if m' = Map.empty then Inr (Some n) else Inl OSError))"

definition remove_entry :: "node option \<Rightarrow> error + node option" where
  "remove_entry e = (case e of None \<Rightarrow> Inl FileNotFoundError | Some n \<Rightarrow> Inr None)"

text \<open>
  \<^verbatim>\<open>Path.rename\<close> within one filesystem: the source must exist, a directory cannot be
  moved below itself, and the target takes the node.
\<close>

definition is_Dir :: "node \<Rightarrow> bool" where
  "is_Dir n = (case n of File b \<Rightarrow> False | Dir m \<Rightarrow> True)"

definition rename_path :: "path \<Rightarrow> path \<Rightarrow> node \<Rightarrow> error + node" where
  "rename_path a b fs =
     (case stat fs a of
        Inl e \<Rightarrow> Inl e
      | Inr n \<Rightarrow>
          if a = b then Inr fs
          else if is_Dir n \<and> prefix a b then Inl OSError
          else (case alter (rename_entry n) fs b of
                  Inl e \<Rightarrow> Inl e
                | Inr fs1 \<Rightarrow> alter remove_entry fs1 a))"

text \<open>\<^verbatim>\<open>Path.read_text\<close>: decoded bytes, with universal newlines.\<close>

definition read_text :: "node \<Rightarrow> path \<Rightarrow> error + pystr" where
  "read_text fs p =
     (case stat fs p of
        Inl e \<Rightarrow> Inl e
      | Inr (Dir m) \<Rightarrow> Inl IsADirectoryError
      | Inr (File bs) \<Rightarrow>
          (case utf8_decode bs of
             None \<Rightarrow> Inl UnicodeDecodeError
           | Some t \<Rightarrow> Inr (universal_newlines t)))"

section \<open>Steps and Groups\<close>

text \<open>
  The mutable state the steps act on: the filesystem, and the cells of the closures'
  \<^verbatim>\<open>nonlocal\<close> variables (a cell is \<open>None\<close> while its variable is unbound).
\<close>

record world =
  root :: node
  cells :: "nat \<Rightarrow> pystr option"

type_synonym action = "world \<Rightarrow> (error + unit) \<times> world"

text \<open>
  \<^verbatim>\<open>cuj.py\<close> is not part of the sources at hand. A verifier is kept as the term that
  builds it: the workspace relationships of \<^verbatim>\<open>InWorkspace\<close>, the two content checks of
  \<^verbatim>\<open>content_verfiers\<close> and \<^verbatim>\<open>cuj.sequence\<close>.
\<close>

datatype InWorkspace = SYMLINK | NOT_UNDER_SYMLINK | UNDER_SYMLINK | OMISSION

datatype verifier =
    verify_none
  | ws_verifier InWorkspace path
  | contains path pystr
  | does_not_contain path pystr
  | sequence "verifier list"

record CujStep =
  verb :: string
  apply_change :: action
  verify :: verifier

record CujGroup =
  description :: string
  steps :: "CujStep list"

text \<open>Applying the changes of a list of steps in order; an exception stops the run.\<close>

fun apply_changes :: "CujStep list \<Rightarrow> action" where
  "apply_changes [] w = (Inr (), w)"
| "apply_changes (s # ss) w =
     (case apply_change s w of
        (Inl e, w') \<Rightarrow> (Inl e, w')
      | (Inr _, w') \<Rightarrow> apply_changes ss w')"

text \<open>
  The collaborators of the catalog that live in other modules (\<^verbatim>\<open>util\<close>, \<^verbatim>\<open>cuj\<close>,
  \<^verbatim>\<open>finder\<close>, \<^verbatim>\<open>clone\<close>, \<^verbatim>\<open>ui\<close>) and in the standard library (\<^verbatim>\<open>tempfile\<close>,
  \<^verbatim>\<open>re\<close>) are parameters.
\<close>

type_synonym target_pred = "string \<Rightarrow> string \<Rightarrow> bool"

record env =
  top_dir :: path
  out_dir :: path
  tempdir :: path
  log_dir :: path
  src :: "string \<Rightarrow> path"
  de_src :: "path \<Rightarrow> string"
  ws_counterpart :: "path \<Rightarrow> path"
  confirm :: "node \<Rightarrow> path \<Rightarrow> string list \<Rightarrow> error + unit"
  re_sub :: "pystr \<Rightarrow> pystr \<Rightarrow> pystr \<Rightarrow> error + pystr"
  type_in :: "string \<Rightarrow> target_pred"
  name_in :: "string \<Rightarrow> target_pred"
  get_cuj_group :: "node \<Rightarrow> (path \<times> target_pred) list \<Rightarrow> string \<Rightarrow> error + CujGroup"

section \<open>File operations of the recipes\<close>

text \<open>\<^verbatim>\<open>open(file, mode="a")\<close> followed by a write of the bytes \<open>bs\<close>.\<close>

definition append_entry :: "byte list \<Rightarrow> node option \<Rightarrow> error + node option" where
  "append_entry bs e =
     (case e of
        None \<Rightarrow> Inr (Some (File bs))
      | Some (File old) \<Rightarrow> Inr (Some (File (old @ bs)))
      | Some (Dir m) \<Rightarrow> Inl IsADirectoryError)"

text \<open>
  \<^verbatim>\<open>open(file, mode="rb+")\<close>, \<^verbatim>\<open>f.seek(-k, io.SEEK_END)\<close>, \<^verbatim>\<open>f.truncate()\<close>: seeking to
  before the start of the file is an \<^verbatim>\<open>OSError\<close>.
\<close>

definition truncate_entry :: "nat \<Rightarrow> node option \<Rightarrow> error + node option" where
  "truncate_entry k e =
     (case e of
        None \<Rightarrow> Inl FileNotFoundError
      | Some (File old) \<Rightarrow>
          if length old < k then Inl OSError
          else Inr (Some (File (take (length old - k) old)))
      | Some (Dir m) \<Rightarrow> Inl IsADirectoryError)"

section \<open>\<^verbatim>\<open>modify_revert\<close>\<close>

definition bogus_line :: "nat \<Rightarrow> pystr" where
  "bogus_line r = ascii (''//BOGUS '' @ uuid_str (uuid4 r) @ [CHR 0x0A])"

text \<open>
  The text is encoded when it is written, after the file has been opened (and created,
  should it be missing by then).
\<close>

definition add_line :: "path \<Rightarrow> pystr \<Rightarrow> action" where
  "add_line file text w =
     (case alter (append_entry []) (root w) file of
        Inl e \<Rightarrow> (Inl e, w)
      | Inr fs1 \<Rightarrow>
          (case utf8_encode text of
             None \<Rightarrow> (Inl UnicodeEncodeError, w\<lparr>root := fs1\<rparr>)
           | Some bs \<Rightarrow>
               (case alter (append_entry bs) fs1 file of
                  Inl e \<Rightarrow> (Inl e, w\<lparr>root := fs1\<rparr>)
                | Inr fs2 \<Rightarrow> (Inr (), w\<lparr>root := fs2\<rparr>))))"

definition revert_line :: "path \<Rightarrow> pystr \<Rightarrow> action" where
  "revert_line file text w =
     (case alter (truncate_entry (length text)) (root w) file of
        Inl e \<Rightarrow> (Inl e, w)
      | Inr fs1 \<Rightarrow> (Inr (), w\<lparr>root := fs1\<rparr>))"

text \<open>
  \<open>r\<close> is the randomness of \<^verbatim>\<open>uuid.uuid4()\<close>, \<open>fs\<close> the filesystem when the Group is
  built.
\<close>

definition modify_revert :: "env \<Rightarrow> nat \<Rightarrow> node \<Rightarrow> path \<Rightarrow> pystr option \<Rightarrow> error + CujGroup" where
  "modify_revert E r fs file text0 =
     (let text = (case text0 of None \<Rightarrow> bogus_line r | Some t \<Rightarrow> t) in
      if \<not> exists_path fs file then Inl RuntimeError
      else Inr \<lparr>description = de_src E file,
                steps = [\<lparr>verb = ''modify'', apply_change = add_line file text,
                          verify = verify_none\<rparr>,
                         \<lparr>verb = ''revert'', apply_change = revert_line file text,
                          verify = verify_none\<rparr>]\<rparr>)"

text \<open>
  \<^verbatim>\<open>Path.write_text\<close>, and \<^verbatim>\<open>open(file, mode="w")\<close> with one \<^verbatim>\<open>write\<close>: the file is
  truncated (or created) when it is opened, the text is encoded when it is written.
\<close>

definition write_text :: "path \<Rightarrow> pystr \<Rightarrow> action" where
  "write_text file text w =
     (case alter (write_entry []) (root w) file of
        Inl e \<Rightarrow> (Inl e, w)
      | Inr fs1 \<Rightarrow>
          (case utf8_encode text of
             None \<Rightarrow> (Inl UnicodeEncodeError, w\<lparr>root := fs1\<rparr>)
           | Some bs \<Rightarrow>
               (case alter (write_entry bs) fs1 file of
                  Inl e \<Rightarrow> (Inl e, w\<lparr>root := fs1\<rparr>)
                | Inr fs2 \<Rightarrow> (Inr (), w\<lparr>root := fs2\<rparr>))))"

definition fs_action :: "(node \<Rightarrow> error + node) \<Rightarrow> action" where
  "fs_action f w = (case f (root w) of Inl e \<Rightarrow> (Inl e, w) | Inr fs1 \<Rightarrow> (Inr (), w\<lparr>root := fs1\<rparr>))"

section \<open>\<^verbatim>\<open>regex_modify_revert\<close> and its canned variants\<close>

text \<open>
  \<open>cell\<close> is the address of the closure variable \<^verbatim>\<open>original_text\<close> that the two steps
  share. \<^verbatim>\<open>modify\<close> assigns it before it calls \<^verbatim>\<open>re.sub\<close>; \<^verbatim>\<open>revert\<close> reads it, which
  is a \<^verbatim>\<open>NameError\<close> while it is unbound.
\<close>

definition regex_modify :: "env \<Rightarrow> nat \<Rightarrow> path \<Rightarrow> pystr \<Rightarrow> pystr \<Rightarrow> action" where
  "regex_modify E cell file pattern replacement w =
     (case read_text (root w) file of
        Inl e \<Rightarrow> (Inl e, w)
      | Inr original_text \<Rightarrow>
          (let w1 = w\<lparr>cells := (cells w)(cell \<mapsto> original_text)\<rparr> in
           case re_sub E pattern replacement original_text of
             Inl e \<Rightarrow> (Inl e, w1)
           | Inr modified_text \<Rightarrow> write_text file modified_text w1))"

definition regex_revert :: "nat \<Rightarrow> path \<Rightarrow> action" where
  "regex_revert cell file w =
     (case cells w cell of
        None \<Rightarrow> (Inl NameError, w)
      | Some original_text \<Rightarrow> write_text file original_text w)"

definition regex_modify_revert ::
  "env \<Rightarrow> nat \<Rightarrow> node \<Rightarrow> path \<Rightarrow> pystr \<Rightarrow> pystr \<Rightarrow> string \<Rightarrow> error + CujGroup" where
  "regex_modify_revert E cell fs file pattern replacement modify_type =
     (if \<not> exists_path fs file then Inl RuntimeError
      else Inr \<lparr>description = de_src E file,
                steps = [\<lparr>verb = modify_type,
                          apply_change = regex_modify E cell file pattern replacement,
                          verify = verify_none\<rparr>,
                         \<lparr>verb = ''revert'', apply_change = regex_revert cell file,
                          verify = verify_none\<rparr>]\<rparr>)"

text \<open>
  The canned variants; \<open>n\<close> is the value of \<^verbatim>\<open>random.randint(0,1000)\<close>. Only the first
  literal of a replacement is a raw string where the source concatenates, so
  \<^verbatim>\<open>';\n}'\<close> holds a line feed and \<^verbatim>\<open>r'</integer>\n</resources>'\<close> a backslash and an n.
\<close>

definition backslash :: char where
  "backslash = CHR 0x5C"

definition dquote :: char where
  "dquote = CHR 0x22"

definition linefeed :: char where
  "linefeed = CHR 0x0A"

definition modify_private_method :: "env \<Rightarrow> nat \<Rightarrow> nat \<Rightarrow> node \<Rightarrow> path \<Rightarrow> error + CujGroup" where
  "modify_private_method E cell n fs file =
     (let pattern = ascii ''(private static boolean.*{)'';
          replacement = ascii ([backslash] @ ''1 Log.d('' @ [dquote] @ ''Placeholder'' @ [dquote]
                               @ '', '' @ [dquote] @ ''Placeholder'' @ str_of_nat n @ [dquote]
                               @ '');'');
          modify_type = ''modify_private_method''
      in regex_modify_revert E cell fs file pattern replacement modify_type)"

definition add_private_field :: "env \<Rightarrow> nat \<Rightarrow> nat \<Rightarrow> node \<Rightarrow> path \<Rightarrow> error + CujGroup" where
  "add_private_field E cell n fs file =
     (let pattern = ascii (''^'' @ [backslash] @ ''}$'');
          replacement = ascii (''private static final int FOO = '' @ str_of_nat n @ '';''
                               @ [linefeed] @ ''}'');
          modify_type = ''add_private_field''
      in regex_modify_revert E cell fs file pattern replacement modify_type)"

definition add_public_api :: "env \<Rightarrow> nat \<Rightarrow> nat \<Rightarrow> node \<Rightarrow> path \<Rightarrow> error + CujGroup" where
  "add_public_api E cell n fs file =
     (let pattern = ascii ([backslash] @ ''}$'');
          replacement = ascii (''public static final int BAZ = '' @ str_of_nat n @ '';''
                               @ [linefeed] @ ''}'');
          modify_type = ''add_public_api''
      in regex_modify_revert E cell fs file pattern replacement modify_type)"

definition modify_resource :: "env \<Rightarrow> nat \<Rightarrow> nat \<Rightarrow> node \<Rightarrow> path \<Rightarrow> error + CujGroup" where
  "modify_resource E cell n fs file =
     (let pattern = ascii ''>0<'';
          replacement = ascii (''>'' @ str_of_nat n @ ''<'');
          modify_type = ''modify_resource''
      in regex_modify_revert E cell fs file pattern replacement modify_type)"

definition add_resource :: "env \<Rightarrow> nat \<Rightarrow> nat \<Rightarrow> node \<Rightarrow> path \<Rightarrow> error + CujGroup" where
  "add_resource E cell n fs file =
     (let pattern = ascii ''</resources>'';
          replacement = ascii (''    <integer name='' @ [dquote] @ ''foo'' @ [dquote] @ ''>''
                               @ str_of_nat n @ ''</integer>'' @ [backslash] @ ''n</resources>'');
          modify_type = ''add_resource''
      in regex_modify_revert E cell fs file pattern replacement modify_type)"

text \<open>The wrappers of \<^verbatim>\<open>regex_modify_revert\<close> that the module defines, in its order.\<close>

definition canned_variants :: "(env \<Rightarrow> nat \<Rightarrow> nat \<Rightarrow> node \<Rightarrow> path \<Rightarrow> error + CujGroup) list" where
  "canned_variants =
     [modify_private_method, add_private_field, add_public_api, modify_resource, add_resource]"

section \<open>\<^verbatim>\<open>create_delete\<close>\<close>

definition test_file_line :: "nat \<Rightarrow> pystr" where
  "test_file_line r = ascii (''//Test File: safe to delete '' @ uuid_str (uuid4 r) @ [linefeed])"

definition missing_dirs :: "node \<Rightarrow> path \<Rightarrow> path list" where
  "missing_dirs fs file = filter (\<lambda>f. \<not> exists_path fs f) (parents file)"

definition shallowest_missing_dir :: "node \<Rightarrow> path \<Rightarrow> path option" where
  "shallowest_missing_dir fs file =
     (if length (missing_dirs fs file) \<noteq> 0 then Some (last (missing_dirs fs file)) else None)"

definition create :: "path \<Rightarrow> pystr \<Rightarrow> action" where
  "create file text w =
     (if exists_path (root w) file then (Inl RuntimeError, w)
      else (case mkdir_parents (root w) (parent file) of
              Inl e \<Rightarrow> (Inl e, w)
            | Inr fs1 \<Rightarrow>
                (case alter touch_entry fs1 file of
                   Inl e \<Rightarrow> (Inl e, w\<lparr>root := fs1\<rparr>)
                 | Inr fs2 \<Rightarrow> write_text file text (w\<lparr>root := fs2\<rparr>))))"

definition delete :: "path \<Rightarrow> path option \<Rightarrow> action" where
  "delete file shallowest w =
     (case shallowest of
        Some d \<Rightarrow> fs_action (\<lambda>fs. alter rmtree_entry fs d) w
      | None \<Rightarrow> fs_action (\<lambda>fs. alter unlink_entry fs file) w)"

definition create_delete :: "env \<Rightarrow> nat \<Rightarrow> node \<Rightarrow> path \<Rightarrow> InWorkspace \<Rightarrow> pystr option \<Rightarrow> CujGroup" where
  "create_delete E r fs file ws text0 =
     (let text = (case text0 of None \<Rightarrow> test_file_line r | Some t \<Rightarrow> t) in
      \<lparr>description = de_src E file,
       steps = [\<lparr>verb = ''create'', apply_change = create file text,
                 verify = ws_verifier ws file\<rparr>,
                \<lparr>verb = ''delete'',
                 apply_change = delete file (shallowest_missing_dir fs file),
                 verify = ws_verifier OMISSION file\<rparr>]\<rparr>)"

definition create_delete_bp :: "env \<Rightarrow> node \<Rightarrow> path \<Rightarrow> CujGroup" where
  \<comment> \<open>the text is given, so no uuid is drawn\<close>
  "create_delete_bp E fs bp_file =
     create_delete E 0 fs bp_file SYMLINK
       (Some (ascii (''filegroup { name: '' @ [dquote] @ ''test-bogus-filegroup'' @ [dquote]
                     @ '', srcs: ['' @ [dquote] @ ''**/*.md'' @ [dquote] @ ''] }'')))"

section \<open>\<^verbatim>\<open>delete_restore\<close>\<close>

definition copied_path :: "env \<Rightarrow> nat \<Rightarrow> path \<Rightarrow> path" where
  "copied_path E r original =
     joinpath (tempdir E) (name original @ ''-'' @ uuid_str (uuid4 r) @ ''.bak'')"

definition delete_restore :: "env \<Rightarrow> nat \<Rightarrow> path \<Rightarrow> InWorkspace \<Rightarrow> error + CujGroup" where
  "delete_restore E r original ws =
     (if is_relative_to (tempdir E) (top_dir E) then Inl SystemExit
      else if is_relative_to (tempdir E) (out_dir E) then Inl SystemExit
      else
        (let copied = copied_path E r original in
         Inr \<lparr>description = de_src E original,
              steps = [\<lparr>verb = ''delete'',
                        apply_change = fs_action (rename_path original copied),
                        verify = ws_verifier OMISSION original\<rparr>,
                       \<lparr>verb = ''restore'',
                        apply_change = fs_action (rename_path copied original),
                        verify = ws_verifier ws original\<rparr>]\<rparr>))"

section \<open>Composite recipes\<close>

text \<open>
  \<^verbatim>\<open>a, b, *tail = steps\<close> followed by \<^verbatim>\<open>assert len(tail) == 0\<close>.
\<close>

fun unpack2 :: "CujStep list \<Rightarrow> error + CujStep \<times> CujStep" where
  "unpack2 [a, b] = Inr (a, b)"
| "unpack2 (a # b # c # cs) = Inl AssertionError"
| "unpack2 _ = Inl ValueError"

definition bind_err :: "error + 'a \<Rightarrow> ('a \<Rightarrow> error + 'b) \<Rightarrow> error + 'b" where
  "bind_err m f = (case m of Inl e \<Rightarrow> Inl e | Inr x \<Rightarrow> f x)"

fun sequence_err :: "(error + 'a) list \<Rightarrow> error + 'a list" where
  "sequence_err [] = Inr []"
| "sequence_err (m # ms) =
     (case m of
        Inl e \<Rightarrow> Inl e
      | Inr x \<Rightarrow> (case sequence_err ms of Inl e \<Rightarrow> Inl e | Inr xs \<Rightarrow> Inr (x # xs)))"

definition replace_it :: "CujStep \<Rightarrow> CujStep \<Rightarrow> action" where
  "replace_it delete_file create_dir w =
     (case apply_change delete_file w of
        (Inl e, w') \<Rightarrow> (Inl e, w')
      | (Inr u, w') \<Rightarrow> apply_change create_dir w')"

definition replace_link_with_dir :: "env \<Rightarrow> nat \<Rightarrow> node \<Rightarrow> path \<Rightarrow> error + CujGroup" where
  "replace_link_with_dir E r fs p =
     (let cd = create_delete E r fs p SYMLINK None in
      bind_err (unpack2 (steps cd)) (\<lambda>(create_file, delete_file).
      bind_err (unpack2 (steps (create_delete_bp E fs (joinpath p ''Android.bp''))))
        (\<lambda>(create_dir, delete_dir).
      Inr \<lparr>description = description cd,
           steps = [create_file,
                    \<lparr>verb = de_src E p @ ''/Android.bp instead of'',
                     apply_change = replace_it delete_file create_dir,
                     verify = verify create_dir\<rparr>,
                    delete_dir]\<rparr>)))"

definition content_verfiers :: "path \<Rightarrow> pystr \<Rightarrow> verifier \<times> verifier" where
  "content_verfiers ws_build_file content =
     (contains ws_build_file content, does_not_contain ws_build_file content)"

definition wrap_steps :: "env \<Rightarrow> path \<Rightarrow> CujStep \<Rightarrow> CujStep \<Rightarrow> verifier \<Rightarrow> verifier \<Rightarrow> CujGroup" where
  \<comment> \<open>the Group the three build-file recipes return\<close>
  "wrap_steps E build_file step1 step2 v1 v2 =
     \<lparr>description = de_src E build_file,
      steps = [\<lparr>verb = verb step1, apply_change = apply_change step1,
                verify = sequence [verify step1, v1]\<rparr>,
               \<lparr>verb = verb step2, apply_change = apply_change step2,
                verify = sequence [verify step2, v2]\<rparr>]\<rparr>"

definition modify_revert_kept_build_file :: "env \<Rightarrow> nat \<Rightarrow> node \<Rightarrow> path \<Rightarrow> error + CujGroup" where
  "modify_revert_kept_build_file E r fs build_file =
     (let content = bogus_line r in
      bind_err (modify_revert E r fs build_file (Some content)) (\<lambda>g.
      bind_err (unpack2 (steps g)) (\<lambda>(step1, step2).
      bind_err (with_name (ws_counterpart E build_file) ''BUILD.bazel'') (\<lambda>ws_build_file.
      case content_verfiers ws_build_file content of
        (merge_prover, merge_disprover) \<Rightarrow>
          Inr (wrap_steps E build_file step1 step2 merge_prover merge_disprover)))))"

definition create_delete_kept_build_file :: "env \<Rightarrow> nat \<Rightarrow> node \<Rightarrow> path \<Rightarrow> error + CujGroup" where
  "create_delete_kept_build_file E r fs build_file =
     (let content = bogus_line r in
      bind_err (with_name (ws_counterpart E build_file) ''BUILD.bazel'') (\<lambda>ws_build_file.
      bind_err (if name build_file = ''BUILD.bazel'' then Inr NOT_UNDER_SYMLINK
                else if name build_file = ''BUILD'' then Inr SYMLINK
                else Inl RuntimeError) (\<lambda>ws.
      case content_verfiers ws_build_file content of
        (merge_prover, merge_disprover) \<Rightarrow>
          bind_err (unpack2 (steps (create_delete E r fs build_file ws (Some content))))
            (\<lambda>(step1, step2).
          Inr (wrap_steps E build_file step1 step2 merge_prover merge_disprover)))))"

definition create_delete_unkept_build_file :: "env \<Rightarrow> nat \<Rightarrow> node \<Rightarrow> path \<Rightarrow> error + CujGroup" where
  "create_delete_unkept_build_file E r fs build_file =
     (let content = bogus_line r in
      bind_err (with_name (ws_counterpart E build_file) ''BUILD.bazel'') (\<lambda>ws_build_file.
      bind_err (unpack2 (steps (create_delete E r fs build_file SYMLINK (Some content))))
        (\<lambda>(step1, step2).
      case content_verfiers ws_build_file content of
        (merge_prover, merge_disprover) \<Rightarrow>
          Inr (wrap_steps E build_file step1 step2 merge_disprover merge_disprover))))"

section \<open>Catalog assembly\<close>

text \<open>
  \<open>rnd\<close> is the supply of random draws (\<^verbatim>\<open>uuid.uuid4()\<close>, \<^verbatim>\<open>random.randint\<close>), indexed
  in the order the draws are made; \<open>fs\<close> is the filesystem while the catalog is built.
  The leading underscore of \<^verbatim>\<open>_kept_build_cujs\<close> and \<^verbatim>\<open>_unkept_build_cujs\<close> is dropped.
\<close>

text \<open>The six calls of \<^verbatim>\<open>finder.confirm\<close>, each on the filesystem as it is then.\<close>

definition non_empty_dir :: string where
  "non_empty_dir = ''*/*''"

definition confirm_kept :: "env \<Rightarrow> node \<Rightarrow> error + unit" where
  "confirm_kept E fs =
     confirm E fs (src E ''build/bazel'')
       [''compliance/Android.bp'', ''!compliance/BUILD'', ''!compliance/BUILD.bazel'',
        ''rules/python/BUILD'']"

definition confirm_unkept :: "env \<Rightarrow> node \<Rightarrow> error + unit" where
  "confirm_unkept E fs =
     confirm E fs (src E ''bionic/libm'') [''Android.bp'', ''!BUILD'', ''!BUILD.bazel'']"

definition confirm_pkg :: "env \<Rightarrow> node \<Rightarrow> error + unit" where
  "confirm_pkg E fs = confirm E fs (src E ''art'') [non_empty_dir, ''Android.bp'', ''!BUILD*'']"

definition confirm_pkg_free :: "env \<Rightarrow> node \<Rightarrow> error + unit" where
  "confirm_pkg_free E fs =
     confirm E fs (src E ''bionic/docs'') [non_empty_dir, ''!**/Android.bp'', ''!**/BUILD*'']"

definition confirm_ancestor :: "env \<Rightarrow> node \<Rightarrow> error + unit" where
  "confirm_ancestor E fs =
     confirm E fs (src E ''bionic'') [''**/Android.bp'', ''!Android.bp'', ''!BUILD*'']"

definition confirm_leaf_pkg_free :: "env \<Rightarrow> node \<Rightarrow> error + unit" where
  "confirm_leaf_pkg_free E fs =
     confirm E fs (src E ''bionic/build'')
       [''!'' @ non_empty_dir, ''!**/Android.bp'', ''!**/BUILD*'']"

definition kept_build_cujs :: "env \<Rightarrow> (nat \<Rightarrow> nat) \<Rightarrow> node \<Rightarrow> error + CujGroup list" where
  "kept_build_cujs E rnd fs =
     (let kept = src E ''build/bazel'' in
      bind_err (confirm_kept E fs) (\<lambda>u.
      sequence_err
        [create_delete_kept_build_file E (rnd 0) fs
           (joinpath (joinpath kept ''compliance'') ''BUILD''),
         create_delete_kept_build_file E (rnd 1) fs
           (joinpath (joinpath kept ''compliance'') ''BUILD.bazel''),
         Inr (create_delete E (rnd 2) fs (joinpath kept ''BUILD/kept-dir'') SYMLINK None),
         modify_revert_kept_build_file E (rnd 3) fs (joinpath kept ''rules/python/BUILD'')]))"

definition unkept_build_cujs :: "env \<Rightarrow> (nat \<Rightarrow> nat) \<Rightarrow> node \<Rightarrow> error + CujGroup list" where
  "unkept_build_cujs E rnd fs =
     (let unkept = src E ''bionic/libm'' in
      bind_err (confirm_unkept E fs) (\<lambda>u.
      sequence_err
        [create_delete_unkept_build_file E (rnd 0) fs (joinpath unkept ''BUILD''),
         create_delete_unkept_build_file E (rnd 1) fs (joinpath unkept ''BUILD.bazel''),
         Inr (create_delete E (rnd 2) fs (joinpath unkept ''bogus-unkept/BUILD'') OMISSION None),
         Inr (create_delete E (rnd 3) fs (joinpath unkept ''bogus-unkept/BUILD.bazel'')
                OMISSION None),
         Inr (create_delete E (rnd 4) fs (joinpath unkept ''BUILD/unkept-dir'') SYMLINK None)]))"

definition Warmup :: CujGroup where
  "Warmup = \<lparr>description = ''WARMUP'',
             steps = [\<lparr>verb = ''no change'', apply_change = (\<lambda>w. (Inr (), w)),
                       verify = verify_none\<rparr>]\<rparr>"

definition clean :: "env \<Rightarrow> action" where
  "clean E w =
     (if is_relative_to (log_dir E) (top_dir E) then (Inl AssertionError, w)
      else if exists_path (root w) (out_dir E)
      then fs_action (\<lambda>fs. alter rmtree_entry fs (out_dir E)) w
      else (Inr (), w))"

definition cc_pred :: target_pred where
  "cc_pred t nm = (prefix ''cc_'' t \<and> \<not> sublist ''test'' t \<and> \<not> prefix ''libcrypto'' nm)"

definition libNN :: target_pred where
  "libNN t nm = (t = ''cc_library_shared'' \<and> nm = ''libneuralnetworks'')"

definition settings_java :: string where
  "settings_java = ''frameworks/base/core/java/android/provider/Settings.java''"

definition ams_java :: string where
  "ams_java =
     ''frameworks/base/services/core/java/com/android/server/am/ActivityManagerService.java''"

definition config_xml :: string where
  "config_xml = ''frameworks/base/core/res/res/values/config.xml''"

definition get_cujgroups :: "env \<Rightarrow> (nat \<Rightarrow> nat) \<Rightarrow> node \<Rightarrow> error + CujGroup list" where
  "get_cujgroups E rnd fs =
     (let pkg = src E ''art'';
          pkg_free = src E ''bionic/docs'';
          ancestor = src E ''bionic'';
          leaf_pkg_free = src E ''bionic/build''
      in
      bind_err (confirm_pkg E fs) (\<lambda>u.
      bind_err (confirm_pkg_free E fs) (\<lambda>u.
      bind_err (confirm_ancestor E fs) (\<lambda>u.
      bind_err (confirm_leaf_pkg_free E fs) (\<lambda>u.
      bind_err (sequence_err
        [modify_revert E (rnd 0) fs (src E ''Android.bp'') None,
         Inr (create_delete_bp E fs (joinpath ancestor ''Android.bp'')),
         Inr (create_delete_bp E fs (joinpath pkg_free ''Android.bp'')),
         Inr (create_delete_bp E fs (joinpath leaf_pkg_free ''Android.bp''))])
        (\<lambda>android_bp_cujs.
      bind_err (sequence_err
        [modify_revert E (rnd 1) fs (src E ''bionic/libc/tzcode/asctime.c'') None,
         modify_revert E (rnd 2) fs (src E ''bionic/libc/stdio/stdio.cpp'') None,
         modify_revert E (rnd 3) fs (src E ''packages/modules/adb/daemon/main.cpp'') None,
         modify_revert E (rnd 4) fs
           (src E ''frameworks/base/core/java/android/view/View.java'') None,
         modify_revert E (rnd 5) fs (src E settings_java) None,
         modify_private_method E 0 (rnd 6) fs (src E settings_java),
         add_private_field E 1 (rnd 7) fs (src E settings_java),
         add_public_api E 2 (rnd 8) fs (src E settings_java),
         modify_private_method E 3 (rnd 9) fs (src E ams_java),
         add_private_field E 4 (rnd 10) fs (src E ams_java),
         add_public_api E 5 (rnd 11) fs (src E ams_java),
         modify_resource E 6 (rnd 12) fs (src E config_xml),
         add_resource E 7 (rnd 13) fs (src E config_xml)])
        (\<lambda>mixed_build_launch_cujs.
      let unreferenced_file_cujs =
            [create_delete E (rnd 14) fs (joinpath ancestor ''unreferenced.txt'') SYMLINK None,
             create_delete E (rnd 15) fs (joinpath pkg ''unreferenced.txt'') SYMLINK None,
             create_delete E (rnd 16) fs (joinpath pkg_free ''unreferenced.txt'')
               UNDER_SYMLINK None,
             create_delete E (rnd 17) fs (joinpath leaf_pkg_free ''unreferenced.txt'')
               UNDER_SYMLINK None]
      in
      bind_err (sequence_err
        [get_cuj_group E fs [(src E ''.'', type_in E ''genrule'')] ''genrules'',
         get_cuj_group E fs [(src E ''.'', cc_pred)] ''cc_'',
         get_cuj_group E fs
           [(src E ''packages/modules/adb/Android.bp'', name_in E ''adbd'')] ''adbd'',
         get_cuj_group E fs
           [(src E ''packages/modules/NeuralNetworks/runtime/Android.bp'', libNN)] ''libNN'',
         get_cuj_group E fs
           [(src E ''packages/modules/adb/Android.bp'', name_in E ''adbd''),
            (src E ''packages/modules/NeuralNetworks/runtime/Android.bp'', libNN)]
           ''adbd&libNN''])
        (\<lambda>cloning_cujs.
      bind_err (sequence_err
        [delete_restore E (rnd 19) (src E ''bionic/libc/version_script.txt'') SYMLINK,
         delete_restore E (rnd 20) (src E ''external/cbor-java/AndroidManifest.xml'') SYMLINK])
        (\<lambda>delete_restore_cujs.
      bind_err (unkept_build_cujs E (\<lambda>i. rnd (21 + i)) fs) (\<lambda>unkept.
      bind_err (kept_build_cujs E (\<lambda>i. rnd (26 + i)) fs) (\<lambda>kept.
      bind_err (replace_link_with_dir E (rnd 30) fs (joinpath pkg ''bogus.txt'')) (\<lambda>replaced.
      Inr ([\<lparr>description = [],
              steps = [\<lparr>verb = ''clean'', apply_change = clean E, verify = verify_none\<rparr>]\<rparr>,
            \<lparr>description = [], steps = steps Warmup\<rparr>]
           @ cloning_cujs
           @ [create_delete E (rnd 18) fs (src E ''bionic/libc/tzcode/globbed.c'')
                UNDER_SYMLINK None]
           @ delete_restore_cujs
           @ unreferenced_file_cujs
           @ mixed_build_launch_cujs
           @ android_bp_cujs
           @ unkept
           @ kept
           @ [replaced])))))))))))))"

section \<open>A concrete environment\<close>

text \<open>
  An instance of the collaborators, for running the recipes on concrete inputs: a source
  tree at \<^verbatim>\<open>/src\<close> with its output below it, the temporary directory \<^verbatim>\<open>/tmp\<close>, and a
  \<^verbatim>\<open>re.sub\<close> that is right for a pattern and a replacement without special characters
  (the first occurrence of the pattern is replaced).
\<close>

fun replace_first :: "pystr \<Rightarrow> pystr \<Rightarrow> pystr \<Rightarrow> pystr" where
  "replace_first pat repl [] = (if pat = [] then repl else [])"
| "replace_first pat repl (c # cs) =
     (if prefix pat (c # cs) then repl @ drop (length pat) (c # cs)
      else c # replace_first pat repl cs)"

fun join_slash :: "path \<Rightarrow> string" where
  "join_slash [] = []"
| "join_slash [c] = c"
| "join_slash (c # d # cs) = c @ ''/'' @ join_slash (d # cs)"

definition example_env :: env where
  "example_env =
     \<lparr>top_dir = [''src''], out_dir = [''src'', ''out''], tempdir = [''tmp''],
      log_dir = [''logs''],
      src = joinpath [''src''],
      de_src = (\<lambda>p. join_slash (drop 1 p)),
      ws_counterpart = (\<lambda>p. [''src'', ''out'', ''soong'', ''workspace''] @ drop 1 p),
      confirm = (\<lambda>fs d pats. Inr ()),
      re_sub = (\<lambda>pat repl s. Inr (replace_first pat repl s)),
      type_in = (\<lambda>a t n. t = a),
      name_in = (\<lambda>a t n. n = a),
      get_cuj_group = (\<lambda>fs d n. Inr \<lparr>description = n, steps = []\<rparr>)\<rparr>"

text \<open>
  A small tree: \<^verbatim>\<open>/src/a.txt\<close> holding \<^verbatim>\<open>hello\n\<close>, the directory \<^verbatim>\<open>/src/dir\<close> and the
  directory \<^verbatim>\<open>/tmp\<close>.
\<close>

definition hello :: "byte list" where
  "hello = [104, 101, 108, 108, 111, 10]"

definition hello_fs :: node where
  "hello_fs =
     Dir (Map.empty(''src'' \<mapsto> Dir (Map.empty(''a.txt'' \<mapsto> File hello,
                                                ''dir'' \<mapsto> Dir Map.empty)),
                    ''tmp'' \<mapsto> Dir Map.empty))"

definition hello_world :: world where
  "hello_world = \<lparr>root = hello_fs, cells = Map.empty\<rparr>"

text \<open>
  A resource file \<^verbatim>\<open>/src/config.xml\<close> holding \<^verbatim>\<open><i>0</i>\<close>.
\<close>

definition res_world :: world where
  "res_world =
     \<lparr>root = Dir (Map.empty(''src'' \<mapsto>
               Dir (Map.empty(''config.xml'' \<mapsto> File [60, 105, 62, 48, 60, 47, 105, 62])))),
      cells = Map.empty\<rparr>"

text \<open>
  An environment whose output directory is the entry of the temporary directory that
  \<^verbatim>\<open>delete_restore\<close> picks for a file named \<^verbatim>\<open>a.txt\<close> when the uuid drawn is
  \<^verbatim>\<open>00000000-0000-4000-8000-000000000000\<close>.
\<close>

definition clash_env :: env where
  "clash_env =
     example_env\<lparr>out_dir := [''tmp'', ''a.txt-00000000-0000-4000-8000-000000000000.bak'']\<rparr>"

text \<open>An environment whose \<^verbatim>\<open>finder.confirm\<close> fails on the directory \<open>d\<close> only.\<close>

definition failing_env :: "path \<Rightarrow> env" where
  "failing_env d =
     example_env\<lparr>confirm := (\<lambda>fs d' pats. if d' = d then Inl (ExternalError ''confirm'')
                                         else Inr ())\<rparr>"

text \<open>
  A filesystem on which the whole catalog can be built: below \<^verbatim>\<open>/src\<close> every path that a
  recipe wants to exist is there (as a directory, which \<^verbatim>\<open>Path.exists\<close> accepts).
\<close>

definition mkdirs :: "string \<Rightarrow> node \<Rightarrow> node" where
  "mkdirs s fs = (case mkdir_parents fs (joinpath [''src''] s) of Inl e \<Rightarrow> fs | Inr fs' \<Rightarrow> fs')"

definition full_fs :: node where
  "full_fs =
     fold mkdirs
       [''Android.bp'', ''bionic/libc/tzcode/asctime.c'', ''bionic/libc/stdio/stdio.cpp'',
        ''packages/modules/adb/daemon/main.cpp'',
        ''frameworks/base/core/java/android/view/View.java'', settings_java, ams_java,
        config_xml, ''build/bazel/rules/python/BUILD'']
       (Dir (Map.empty(''tmp'' \<mapsto> Dir Map.empty)))"

section \<open>Basic facts about the filesystem operations\<close>

lemma alter_then:
  "alter f fs p = Inr fs1 \<Longrightarrow>
   alter g fs1 p = alter (\<lambda>e. case f e of Inl x \<Rightarrow> Inl x | Inr v \<Rightarrow> g v) fs p"
proof (induction f fs p arbitrary: fs1 rule: alter.induct)
  case (1 f n)
  then show ?case by (auto split: sum.splits option.splits)
next
  case (2 f b c cs)
  then show ?case by simp
next
  case (3 f m c)
  then show ?case by (auto split: sum.splits)
next
  case (4 f m c d cs)
  then show ?case by (auto split: sum.splits option.splits)
qed

lemma alter_same:
  "stat fs p = Inr n \<Longrightarrow> h (Some n) = Inr (Some n) \<Longrightarrow> alter h fs p = Inr fs"
proof (induction h fs p rule: alter.induct)
  case (1 f n)
  then show ?case by simp
next
  case (2 f b c cs)
  then show ?case by simp
next
  case (3 f m c)
  then show ?case by (auto split: option.splits simp: fun_upd_idem)
next
  case (4 f m c d cs)
  then show ?case by (auto split: option.splits simp: fun_upd_idem)
qed

lemma alter_stat:
  "stat fs p = Inr n \<Longrightarrow> f (Some n) = Inr (Some n') \<Longrightarrow>
   \<exists>fs'. alter f fs p = Inr fs' \<and> stat fs' p = Inr n'"
proof (induction f fs p rule: alter.induct)
  case (1 f n)
  then show ?case by simp
next
  case (2 f b c cs)
  then show ?case by simp
next
  case (3 f m c)
  then show ?case by (auto split: option.splits)
next
  case (4 f m c d cs)
  then show ?case by (auto split: option.splits)
qed

lemma add_line_file:
  assumes "stat (root w) file = Inr (File bs)" and "utf8_encode text = Some enc"
  shows "\<exists>fs'. add_line file text w = (Inr (), w\<lparr>root := fs'\<rparr>)
           \<and> alter (append_entry enc) (root w) file = Inr fs'
           \<and> stat fs' file = Inr (File (bs @ enc))"
proof -
  have a0: "append_entry [] (Some (File bs)) = Inr (Some (File bs))"
    by (simp add: append_entry_def)
  have o: "alter (append_entry []) (root w) file = Inr (root w)"
    using alter_same [where h = "append_entry []", OF assms(1) a0] .
  have a1: "append_entry enc (Some (File bs)) = Inr (Some (File (bs @ enc)))"
    by (simp add: append_entry_def)
  from alter_stat [where f = "append_entry enc", OF assms(1) a1] obtain fs' where
    f: "alter (append_entry enc) (root w) file = Inr fs'" "stat fs' file = Inr (File (bs @ enc))"
    by blast
  show ?thesis using o f assms(2) by (simp add: add_line_def)
qed

lemma add_then_revert:
  assumes "stat (root w) file = Inr (File bs)" and "utf8_encode text = Some enc"
    and "length enc = length text"
  shows "\<exists>w'. add_line file text w = (Inr (), w') \<and> revert_line file text w' = (Inr (), w)"
proof -
  from add_line_file [OF assms(1,2)] obtain fs' where
    a: "add_line file text w = (Inr (), w\<lparr>root := fs'\<rparr>)"
    and f: "alter (append_entry enc) (root w) file = Inr fs'"
    by blast
  let ?h = "\<lambda>e. case append_entry enc e of Inl x \<Rightarrow> Inl x
                  | Inr v \<Rightarrow> truncate_entry (length text) v"
  have h: "?h (Some (File bs)) = Inr (Some (File bs))"
    using assms(3) by (simp add: append_entry_def truncate_entry_def)
  have "alter (truncate_entry (length text)) fs' file = alter ?h (root w) file"
    using alter_then [OF f] .
  also have "\<dots> = Inr (root w)"
    using alter_same [where h = ?h, OF assms(1) h] .
  finally have "revert_line file text (w\<lparr>root := fs'\<rparr>) = (Inr (), w)"
    by (simp add: revert_line_def)
  with a show ?thesis by blast
qed

lemma stat_exists: "stat fs p = Inr n \<Longrightarrow> exists_path fs p"
  by (simp add: exists_path_def)

lemma hex_char_ascii: "of_char (hex_char (v mod 16)) < (128::nat)"
proof -
  have "v mod 16 < length ''0123456789abcdef''" by simp
  then have "hex_char (v mod 16) \<in> set ''0123456789abcdef''"
    unfolding hex_char_def by (rule nth_mem)
  then show ?thesis by auto
qed

lemma hex_digits_ascii: "c \<in> set (hex_digits k v) \<Longrightarrow> of_char c < (128::nat)"
  by (induction k arbitrary: v) (auto simp: hex_char_ascii)

lemma uuid_str_ascii: "c \<in> set (uuid_str u) \<Longrightarrow> of_char c < (128::nat)"
  by (auto simp: uuid_str_def dest: hex_digits_ascii)

lemma bogus_line_ascii: "c \<in> set (bogus_line r) \<Longrightarrow> c < 128"
  by (auto simp: bogus_line_def ascii_def dest: uuid_str_ascii)

lemma utf8_encode_ascii:
  "\<forall>c\<in>set t. c < 128 \<Longrightarrow> \<exists>bs. utf8_encode t = Some bs \<and> length bs = length t"
  by (induction t) (auto simp: utf8_encode_cp_def)

lemma hex_digits_unfold:
  "hex_digits k v = (if k = 0 then [] else hex_digits (k - 1) (v div 16) @ [hex_char (v mod 16)])"
  by (cases k) simp_all

section \<open>\<^verbatim>\<open>modify_revert\<close>: the append and truncate round trip\<close>

lemma modify_revert_steps:
  "modify_revert E r fs file text0 = Inr g \<Longrightarrow>
   apply_changes (steps g) w =
     (let text = (case text0 of None \<Rightarrow> bogus_line r | Some t \<Rightarrow> t) in
      case add_line file text w of (Inl e, w') \<Rightarrow> (Inl e, w')
      | (Inr u, w') \<Rightarrow> revert_line file text w')"
  by (auto simp: modify_revert_def Let_def split: if_splits prod.splits sum.splits)

lemma modify_revert_round_trip:
  assumes s: "stat (root w) file = Inr (File bs)"
    and e: "utf8_encode (case text0 of None \<Rightarrow> bogus_line r | Some t \<Rightarrow> t) = Some enc"
    and l: "length enc = length (case text0 of None \<Rightarrow> bogus_line r | Some t \<Rightarrow> t)"
  shows "\<exists>g. modify_revert E r (root w) file text0 = Inr g
            \<and> apply_changes (steps g) w = (Inr (), w)"
proof -
  let ?t = "case text0 of None \<Rightarrow> bogus_line r | Some t \<Rightarrow> t"
  have ex: "exists_path (root w) file" using s by (rule stat_exists)
  then obtain g where g: "modify_revert E r (root w) file text0 = Inr g"
    by (simp add: modify_revert_def Let_def)
  from add_then_revert [OF s e l] obtain w' where
    "add_line file ?t w = (Inr (), w')" "revert_line file ?t w' = (Inr (), w)"
    by blast
  then have "apply_changes (steps g) w = (Inr (), w)"
    by (simp add: modify_revert_steps [OF g] Let_def)
  with g show ?thesis by blast
qed

lemma revert_line_truncates:
  assumes s: "stat (root w) file = Inr (File bs)" and l: "length t \<le> length bs"
  shows "\<exists>fs'. revert_line file t w = (Inr (), w\<lparr>root := fs'\<rparr>)
            \<and> stat fs' file = Inr (File (take (length bs - length t) bs))"
proof -
  have h: "truncate_entry (length t) (Some (File bs))
           = Inr (Some (File (take (length bs - length t) bs)))"
    using l by (simp add: truncate_entry_def)
  from alter_stat [where f = "truncate_entry (length t)", OF s h] obtain fs' where
    "alter (truncate_entry (length t)) (root w) file = Inr fs'"
    "stat fs' file = Inr (File (take (length bs - length t) bs))"
    by blast
  then show ?thesis by (auto simp: revert_line_def)
qed

lemma euro_run:
  "modify_revert example_env 0 hello_fs [''src'', ''a.txt''] (Some [0x20AC]) =
     Inr \<lparr>description = ''a.txt'',
          steps = [\<lparr>verb = ''modify'', apply_change = add_line [''src'', ''a.txt''] [0x20AC],
                    verify = verify_none\<rparr>,
                   \<lparr>verb = ''revert'', apply_change = revert_line [''src'', ''a.txt''] [0x20AC],
                    verify = verify_none\<rparr>]\<rparr>"
  by (simp add: modify_revert_def exists_path_def hello_fs_def example_env_def Let_def)

lemma euro_apply:
  "apply_changes [\<lparr>verb = ''modify'', apply_change = add_line [''src'', ''a.txt''] [0x20AC],
                    verify = verify_none\<rparr>,
                   \<lparr>verb = ''revert'', apply_change = revert_line [''src'', ''a.txt''] [0x20AC],
                    verify = verify_none\<rparr>] hello_world
   = (Inr (), \<lparr>root = Dir (Map.empty(''src'' \<mapsto> Dir (Map.empty(''a.txt'' \<mapsto> File (hello @ [0xE2, 0x82]),
                                                ''dir'' \<mapsto> Dir Map.empty)),
                    ''tmp'' \<mapsto> Dir Map.empty)),
               cells = Map.empty\<rparr>)"
  by (simp add: hello_world_def hello_fs_def hello_def add_line_def revert_line_def append_entry_def
      truncate_entry_def utf8_encode_cp_def fun_upd_twist)

lemma non_ascii_differs:
  "\<exists>E r w file t g w'. (\<exists>bs. stat (root w) file = Inr (File bs))
      \<and> modify_revert E r (root w) file (Some t) = Inr g
      \<and> apply_changes (steps g) w = (Inr (), w')
      \<and> stat (root w') file \<noteq> stat (root w) file"
proof -
  let ?p = "[''src'', ''a.txt'']"
  let ?g = "\<lparr>description = ''a.txt'',
          steps = [\<lparr>verb = ''modify'', apply_change = add_line ?p [0x20AC],
                    verify = verify_none\<rparr>,
                   \<lparr>verb = ''revert'', apply_change = revert_line ?p [0x20AC],
                    verify = verify_none\<rparr>]\<rparr>"
  let ?w' = "\<lparr>root = Dir (Map.empty(''src'' \<mapsto> Dir (Map.empty(''a.txt'' \<mapsto> File (hello @ [0xE2, 0x82]),
                                                ''dir'' \<mapsto> Dir Map.empty)),
                    ''tmp'' \<mapsto> Dir Map.empty)),
               cells = Map.empty\<rparr>"
  have 1: "\<exists>bs. stat (root hello_world) ?p = Inr (File bs)"
    by (simp add: hello_world_def hello_fs_def)
  have 2: "modify_revert example_env 0 (root hello_world) ?p (Some [0x20AC]) = Inr ?g"
    using euro_run by (simp add: hello_world_def)
  have 3: "apply_changes (steps ?g) hello_world = (Inr (), ?w')"
    using euro_apply by simp
  have 4: "stat (root ?w') ?p \<noteq> stat (root hello_world) ?p"
    by (simp add: hello_world_def hello_fs_def hello_def)
  from 1 2 3 4 show ?thesis by blast
qed

lemma stat_hello: "stat (root hello_world) [''src'', ''a.txt''] = Inr (File hello)"
  by (simp add: hello_world_def hello_fs_def)

lemma e_acute_run:
  "modify_revert example_env 0 hello_fs [''src'', ''a.txt''] (Some [0xE9]) =
     Inr \<lparr>description = ''a.txt'',
          steps = [\<lparr>verb = ''modify'', apply_change = add_line [''src'', ''a.txt''] [0xE9],
                    verify = verify_none\<rparr>,
                   \<lparr>verb = ''revert'', apply_change = revert_line [''src'', ''a.txt''] [0xE9],
                    verify = verify_none\<rparr>]\<rparr>"
  by (simp add: modify_revert_def exists_path_def hello_fs_def example_env_def Let_def)

lemma e_acute_apply:
  "apply_changes [\<lparr>verb = ''modify'', apply_change = add_line [''src'', ''a.txt''] [0xE9],
                    verify = verify_none\<rparr>,
                   \<lparr>verb = ''revert'', apply_change = revert_line [''src'', ''a.txt''] [0xE9],
                    verify = verify_none\<rparr>] hello_world
   = (Inr (), \<lparr>root = Dir (Map.empty(''src'' \<mapsto> Dir (Map.empty(''a.txt'' \<mapsto> File (hello @ [0xC3]),
                                                ''dir'' \<mapsto> Dir Map.empty)),
                    ''tmp'' \<mapsto> Dir Map.empty)),
               cells = Map.empty\<rparr>)"
  by (simp add: hello_world_def hello_fs_def hello_def add_line_def revert_line_def append_entry_def
      truncate_entry_def utf8_encode_cp_def fun_upd_twist)

text \<open>
  C1. The claim: for every existing file, running the modify step of \<^verbatim>\<open>modify_revert(file)\<close>
  (which appends the generated marker line, or the caller-supplied text) and then its revert
  step leaves the file byte-identical. The code does not do so for a caller-supplied text with
  a character outside ASCII: on \<^verbatim>\<open>/src/a.txt\<close> holding \<^verbatim>\<open>hello\n\<close> and the text
  \<^verbatim>\<open>U+00E9\<close> (two bytes, \<^verbatim>\<open>C3 A9\<close>, in UTF-8) both steps succeed and the file is left
  with the stray byte \<^verbatim>\<open>C3\<close> after its original content.
\<close>

theorem modify_revert_non_ascii_leaves_stray_byte:
  "\<exists>g w'. modify_revert example_env 0 hello_fs [''src'', ''a.txt''] (Some [0xE9]) = Inr g
     \<and> stat hello_fs [''src'', ''a.txt''] = Inr (File hello)
     \<and> apply_changes (steps g) hello_world = (Inr (), w')
     \<and> stat (root w') [''src'', ''a.txt''] = Inr (File (hello @ [0xC3]))
     \<and> hello @ [0xC3] \<noteq> hello"
proof -
  have "stat hello_fs [''src'', ''a.txt''] = Inr (File hello)"
    by (simp add: hello_fs_def)
  then show ?thesis
    using e_acute_run e_acute_apply by simp
qed

text \<open>
  C9. The revert step of \<^verbatim>\<open>modify_revert\<close> seeks back from the end of the file by the
  number of characters of the appended text, not by the number of its bytes: on a file of
  content \<open>bs\<close> it leaves the first \<open>length bs - length t\<close> bytes. So modify followed by
  revert restores the file (indeed the whole filesystem) for every text whose UTF-8 encoding
  has one byte per character, the generated marker line among them, and there is a
  caller-supplied text outside ASCII for which the file after the revert differs from the
  original.
\<close>

theorem revert_seeks_by_character_count:
  "(\<forall>E r w file t bs g.
      stat (root w) file = Inr (File bs) \<and> length t \<le> length bs
      \<and> modify_revert E r (root w) file (Some t) = Inr g
      \<longrightarrow> (\<exists>fs'. apply_change (steps g ! 1) w = (Inr (), w\<lparr>root := fs'\<rparr>)
             \<and> stat fs' file = Inr (File (take (length bs - length t) bs))))
   \<and> (\<forall>E r w file t bs enc.
      stat (root w) file = Inr (File bs) \<and> utf8_encode t = Some enc \<and> length enc = length t
      \<longrightarrow> (\<exists>g. modify_revert E r (root w) file (Some t) = Inr g
             \<and> apply_changes (steps g) w = (Inr (), w)))
   \<and> (\<forall>E r w file bs.
      stat (root w) file = Inr (File bs)
      \<longrightarrow> (\<exists>g. modify_revert E r (root w) file None = Inr g
             \<and> apply_changes (steps g) w = (Inr (), w)))
   \<and> (\<exists>E r w file t g w'. (\<exists>bs. stat (root w) file = Inr (File bs))
      \<and> modify_revert E r (root w) file (Some t) = Inr g
      \<and> apply_changes (steps g) w = (Inr (), w')
      \<and> stat (root w') file \<noteq> stat (root w) file)"
proof (intro conjI allI impI)
  fix E r and w :: world and p t bs g
  assume a: "stat (root w) p = Inr (File bs) \<and> length t \<le> length bs
      \<and> modify_revert E r (root w) p (Some t) = Inr g"
  then have "apply_change (steps g ! 1) w = revert_line p t w"
    by (auto simp: modify_revert_def Let_def split: if_splits)
  with revert_line_truncates [of w p bs t] a
  show "\<exists>fs'. apply_change (steps g ! 1) w = (Inr (), w\<lparr>root := fs'\<rparr>)
             \<and> stat fs' p = Inr (File (take (length bs - length t) bs))"
    by simp
next
  fix E r and w :: world and p t bs enc
  assume "stat (root w) p = Inr (File bs) \<and> utf8_encode t = Some enc \<and> length enc = length t"
  then show "\<exists>g. modify_revert E r (root w) p (Some t) = Inr g
             \<and> apply_changes (steps g) w = (Inr (), w)"
    using modify_revert_round_trip [where ?text0.0 = "Some t"] by simp
next
  fix E r and w :: world and p bs
  assume s: "stat (root w) p = Inr (File bs)"
  have "\<forall>c\<in>set (bogus_line r). c < 128" using bogus_line_ascii by blast
  from utf8_encode_ascii [OF this] obtain enc where
    "utf8_encode (bogus_line r) = Some enc" "length enc = length (bogus_line r)" by blast
  then show "\<exists>g. modify_revert E r (root w) p None = Inr g
             \<and> apply_changes (steps g) w = (Inr (), w)"
    using modify_revert_round_trip [where ?text0.0 = None, OF s] by simp
next
  show "\<exists>E r w file t g w'. (\<exists>bs. stat (root w) file = Inr (File bs))
      \<and> modify_revert E r (root w) file (Some t) = Inr g
      \<and> apply_changes (steps g) w = (Inr (), w')
      \<and> stat (root w') file \<noteq> stat (root w) file"
    by (rule non_ascii_differs)
qed

theorem revert_seeks_by_character_count_witness:
  "stat (root hello_world) [''src'', ''a.txt''] = Inr (File hello)
   \<and> (\<exists>g. modify_revert example_env 0 (root hello_world) [''src'', ''a.txt''] None = Inr g
           \<and> apply_changes (steps g) hello_world = (Inr (), hello_world))"
proof -
  from revert_seeks_by_character_count
  have "stat (root hello_world) [''src'', ''a.txt''] = Inr (File hello)
      \<longrightarrow> (\<exists>g. modify_revert example_env 0 (root hello_world) [''src'', ''a.txt''] None = Inr g
             \<and> apply_changes (steps g) hello_world = (Inr (), hello_world))"
    by blast
  with stat_hello show ?thesis by simp
qed

section \<open>Missing targets\<close>

text \<open>
  A directory exists, so a Group for it is built; its modify step then fails when it
  opens the directory for appending.
\<close>

lemma alter_fail:
  "stat fs p = Inr n \<Longrightarrow> f (Some n) = Inl e \<Longrightarrow> alter f fs p = Inl e"
proof (induction f fs p rule: alter.induct)
  case (1 f n)
  then show ?case by simp
next
  case (2 f b c cs)
  then show ?case by simp
next
  case (3 f m c)
  then show ?case by (auto split: option.splits)
next
  case (4 f m c d cs)
  then show ?case by (auto split: option.splits)
qed

lemma modify_revert_on_directory:
  assumes s: "stat (root w) file = Inr (Dir m)"
  shows "\<exists>g. modify_revert E r (root w) file text0 = Inr g
        \<and> apply_changes (steps g) w = (Inl IsADirectoryError, w)"
proof -
  have "append_entry [] (Some (Dir m)) = Inl IsADirectoryError"
    by (simp add: append_entry_def)
  from alter_fail [where f = "append_entry []", OF s this]
  have "add_line file (case text0 of None \<Rightarrow> bogus_line r | Some t \<Rightarrow> t) w
        = (Inl IsADirectoryError, w)"
    by (simp add: add_line_def)
  moreover have "exists_path (root w) file" using s by (rule stat_exists)
  ultimately show ?thesis
    by (simp add: modify_revert_def Let_def)
qed




section \<open>\<^verbatim>\<open>create_delete\<close>: what the delete step removes\<close>

lemma parents_Nil [simp]: "parents [] = []"
  by (simp add: parents.simps)

lemma parents_Cons: "parents (c # p) = map ((#) c) (parents p) @ [[]]"
proof (induction p rule: parents.induct)
  case (1 p)
  show ?case
  proof (cases "p = []")
    case True
    then show ?thesis by (simp add: parents.simps [of "[c]"])
  next
    case False
    with 1 have ih: "parents (c # butlast p) = map ((#) c) (parents (butlast p)) @ [[]]"
      by simp
    have "parents (c # p) = (c # butlast p) # parents (c # butlast p)"
      using False by (simp add: parents.simps [of "c # p"])
    also have "\<dots> = map ((#) c) (butlast p # parents (butlast p)) @ [[]]"
      using ih by simp
    also have "butlast p # parents (butlast p) = parents p"
      using False by (simp add: parents.simps [of p])
    finally show ?thesis .
  qed
qed

lemma parents_last: "p \<noteq> [] \<Longrightarrow> last (parents p) = []"
  by (cases p) (simp_all add: parents_Cons)

lemma parents_nonempty: "p \<noteq> [] \<Longrightarrow> parents p \<noteq> []"
  by (cases p) (simp_all add: parents_Cons)

lemma exists_root [simp]: "exists_path fs []"
  by (simp add: exists_path_def)

lemma exists_File_Cons [simp]: "\<not> exists_path (File b) (c # q)"
  by (simp add: exists_path_def)

lemma exists_Dir_Cons:
  "exists_path (Dir m) (c # q) = (case m c of None \<Rightarrow> False | Some n \<Rightarrow> exists_path n q)"
  by (simp add: exists_path_def split: option.splits)

lemma missing_dirs_Cons:
  "missing_dirs fs (c # rest) =
     map ((#) c) (case fs of
                    File b \<Rightarrow> parents rest
                  | Dir m \<Rightarrow> (case m c of None \<Rightarrow> parents rest | Some n \<Rightarrow> missing_dirs n rest))"
  by (cases fs)
     (auto simp: missing_dirs_def parents_Cons filter_map o_def exists_Dir_Cons
           split: option.splits)

lemma missing_dirs_subset: "set (missing_dirs fs fl) \<subseteq> set (parents fl)"
  by (auto simp: missing_dirs_def)

lemma last_missing_is_prefix:
  "p \<in> set (missing_dirs fs fl) \<Longrightarrow> prefix (last (missing_dirs fs fl)) p"
proof (induction fl arbitrary: fs p)
  case Nil
  then show ?case by (simp add: missing_dirs_def)
next
  case (Cons c rest)
  show ?case
  proof (cases "\<exists>m n. fs = Dir m \<and> m c = Some n")
    case True
    then obtain m n where f: "fs = Dir m" "m c = Some n" by blast
    then have md: "missing_dirs fs (c # rest) = map ((#) c) (missing_dirs n rest)"
      by (simp add: missing_dirs_Cons)
    with Cons.prems obtain q where q: "p = c # q" "q \<in> set (missing_dirs n rest)" by auto
    then have ne: "missing_dirs n rest \<noteq> []" by auto
    from Cons.IH [OF q(2)] have "prefix (last (missing_dirs n rest)) q" .
    then show ?thesis using md q ne by (simp add: last_map)
  next
    case False
    then have md: "missing_dirs fs (c # rest) = map ((#) c) (parents rest)"
      by (cases fs) (auto simp: missing_dirs_Cons split: option.splits)
    with Cons.prems obtain q where q: "p = c # q" "q \<in> set (parents rest)" by auto
    then have ne: "parents rest \<noteq> []" by auto
    then have "rest \<noteq> []" by auto
    then have "last (parents rest) = []" by (rule parents_last)
    then show ?thesis using md q ne by (simp add: last_map)
  qed
qed

lemma alter_Dir:
  "alter f (Dir m) (c # q) = Inr x \<Longrightarrow> \<exists>m'. x = Dir m'"
  by (cases q) (auto split: sum.splits option.splits)

lemma mkdir_parents_Dir:
  "mkdir_parents (Dir m) q = Inr x \<Longrightarrow> \<exists>m'. x = Dir m'"
  by (cases q) (auto split: sum.splits option.splits)

lemma create_then_delete_fs:
  assumes h: "h None = Inr (Some (File bs))"
  shows "\<not> exists_path fs fl \<Longrightarrow> mkdir_parents fs (butlast fl) = Inr fs1 \<Longrightarrow>
     alter h fs1 fl = Inr fs2 \<Longrightarrow>
     (case shallowest_missing_dir fs fl of
        Some d \<Rightarrow> alter rmtree_entry fs2 d
      | None \<Rightarrow> alter unlink_entry fs2 fl) = Inr fs"
proof (induction fl arbitrary: fs fs1 fs2)
  case Nil
  then show ?case by simp
next
  case (Cons c rest)
  from Cons.prems(2) obtain m where fs: "fs = Dir m"
    by (cases fs; cases rest) auto
  show ?case
  proof (cases rest)
    case Nil
    with Cons.prems fs have mc: "m c = None" and "fs1 = Dir m"
      by (auto simp: exists_Dir_Cons split: option.splits)
    with Cons.prems(3) Nil h have "fs2 = Dir (m(c \<mapsto> File bs))" by auto
    moreover have "shallowest_missing_dir fs [c] = None"
      by (simp add: shallowest_missing_dir_def missing_dirs_def parents_Cons)
    ultimately show ?thesis using Nil mc fs
      by (simp add: unlink_entry_def fun_upd_idem)
  next
    case (Cons d cs)
    note rest = this
    show ?thesis
    proof (cases "m c")
      case None
      from Cons.prems(2) fs rest None obtain n1 where
        n1: "mkdir_parents (Dir Map.empty) (butlast rest) = Inr n1" "fs1 = Dir (m(c \<mapsto> n1))"
        by (auto split: sum.splits)
      from n1(1) obtain m1 where m1: "n1 = Dir m1" by (auto dest: mkdir_parents_Dir)
      from Cons.prems(3) n1 rest obtain n2 where
        n2: "alter h n1 rest = Inr n2" "fs2 = Dir (m(c \<mapsto> n2))"
        by (auto split: sum.splits)
      from n2(1) m1 rest obtain m2 where m2: "n2 = Dir m2" by (auto dest: alter_Dir)
      have "missing_dirs fs (c # rest) = map ((#) c) (parents rest)"
        using fs None by (simp add: missing_dirs_Cons)
      moreover have "parents rest \<noteq> []" "last (parents rest) = []"
        using rest by (simp_all add: parents_Cons)
      ultimately have "shallowest_missing_dir fs (c # rest) = Some [c]"
        by (simp add: shallowest_missing_dir_def last_map)
      then show ?thesis using n2 m2 None fs
        by (simp add: rmtree_entry_def fun_upd_idem)
    next
      case (Some n)
      from Cons.prems(2) fs rest Some obtain n1 where
        n1: "mkdir_parents n (butlast rest) = Inr n1" "fs1 = Dir (m(c \<mapsto> n1))"
        by (auto split: sum.splits)
      from Cons.prems(3) n1 rest obtain n2 where
        n2: "alter h n1 rest = Inr n2" "fs2 = Dir (m(c \<mapsto> n2))"
        by (auto split: sum.splits)
      have ne: "\<not> exists_path n rest"
        using Cons.prems(1) fs Some by (simp add: exists_Dir_Cons)
      note ih = Cons.IH [OF ne n1(1) n2(1)]
      have md: "missing_dirs fs (c # rest) = map ((#) c) (missing_dirs n rest)"
        using fs Some by (simp add: missing_dirs_Cons)
      show ?thesis
      proof (cases "missing_dirs n rest = []")
        case True
        then have "shallowest_missing_dir n rest = None"
          "shallowest_missing_dir fs (c # rest) = None"
          using md by (simp_all add: shallowest_missing_dir_def)
        with ih show ?thesis using n2 rest Some fs
          by (auto split: sum.splits simp: fun_upd_idem)
      next
        case False
        let ?d = "last (missing_dirs n rest)"
        have "?d \<in> set (missing_dirs n rest)" using False by simp
        then have "\<not> exists_path n ?d" by (simp add: missing_dirs_def)
        then have dne: "?d \<noteq> []" by auto
        then obtain e es where d: "?d = e # es" by (cases ?d) auto
        have "shallowest_missing_dir n rest = Some ?d"
          "shallowest_missing_dir fs (c # rest) = Some (c # ?d)"
          using md False by (simp_all add: shallowest_missing_dir_def last_map)
        with ih show ?thesis using n2 Some fs d
          by (auto split: sum.splits simp: fun_upd_idem)
      qed
    qed
  qed
qed

lemma create_delete_steps:
  "steps (create_delete E r fs fl ws text0)
     = [\<lparr>verb = ''create'',
         apply_change = create fl (case text0 of None \<Rightarrow> test_file_line r | Some t \<Rightarrow> t),
         verify = ws_verifier ws fl\<rparr>,
        \<lparr>verb = ''delete'', apply_change = delete fl (shallowest_missing_dir fs fl),
         verify = ws_verifier OMISSION fl\<rparr>]"
  by (simp add: create_delete_def Let_def)

lemma create_then_delete:
  assumes c: "create fl text w = (Inr (), w1)"
  shows "delete fl (shallowest_missing_dir (root w) fl) w1 = (Inr (), w)"
proof -
  from c have ne: "\<not> exists_path (root w) fl"
    by (auto simp: create_def split: if_splits)
  from c ne obtain fs1 fs2 fs3 enc fs4 where
    1: "mkdir_parents (root w) (butlast fl) = Inr fs1"
    and 2: "alter touch_entry fs1 fl = Inr fs2"
    and 3: "alter (write_entry []) fs2 fl = Inr fs3"
    and e: "utf8_encode text = Some enc"
    and 4: "alter (write_entry enc) fs3 fl = Inr fs4"
    and w1: "w1 = w\<lparr>root := fs4\<rparr>"
    by (auto simp: create_def write_text_def parent_def split: sum.splits option.splits)
  let ?h = "\<lambda>e. case (case touch_entry e of Inl x \<Rightarrow> Inl x | Inr v \<Rightarrow> write_entry [] v) of
                   Inl x \<Rightarrow> Inl x | Inr v \<Rightarrow> write_entry enc v"
  have "alter (write_entry enc) fs3 fl
        = alter (\<lambda>e. case write_entry [] e of Inl x \<Rightarrow> Inl x | Inr v \<Rightarrow> write_entry enc v) fs2 fl"
    using alter_then [OF 3] .
  also have "\<dots> = alter (\<lambda>e. case touch_entry e of Inl x \<Rightarrow> Inl x
                     | Inr v \<Rightarrow> (case write_entry [] v of Inl x \<Rightarrow> Inl x | Inr v \<Rightarrow> write_entry enc v)) fs1 fl"
    using alter_then [OF 2] .
  finally have a: "alter (\<lambda>e. case touch_entry e of Inl x \<Rightarrow> Inl x
                     | Inr v \<Rightarrow> (case write_entry [] v of Inl x \<Rightarrow> Inl x | Inr v \<Rightarrow> write_entry enc v)) fs1 fl = Inr fs4"
    using 4 by simp
  have h: "(\<lambda>e. case touch_entry e of Inl x \<Rightarrow> Inl x
                     | Inr v \<Rightarrow> (case write_entry [] v of Inl x \<Rightarrow> Inl x | Inr v \<Rightarrow> write_entry enc v)) None
           = Inr (Some (File enc))"
    by (simp add: touch_entry_def write_entry_def)
  from create_then_delete_fs [OF h ne 1 a]
  show ?thesis
    using w1 by (auto simp: delete_def fs_action_def split: option.splits)
qed

lemma parents_new:
  "parents [''src'', ''new'', ''sub'', ''x.txt'']
     = [[''src'', ''new'', ''sub''], [''src'', ''new''], [''src''], []]"
  by (simp add: parents_Cons)

lemma create_new_succeeds:
  "\<exists>w1. create [''src'', ''new'', ''sub'', ''x.txt''] (ascii ''x'') hello_world = (Inr (), w1)"
  by (simp add: create_def hello_world_def hello_fs_def exists_path_def parent_def
      touch_entry_def write_text_def write_entry_def ascii_def utf8_encode_cp_def)

text \<open>
  C2. For the Group of \<^verbatim>\<open>create_delete(file, ws)\<close>, built on the filesystem of \<open>w\<close>:
  if every parent directory of the file exists then, the delete step is the unlinking of
  that one file; if some parent is missing then, the delete step is the recursive removal of
  the shallowest missing parent \<open>d\<close> (a missing parent that is a prefix of every missing
  parent); and whenever the create step has succeeded, the delete step right after it
  succeeds and gives back the filesystem as it was.
\<close>

theorem create_delete_delete_step:
  "(\<forall>E r (w::world) fl ws text0.
      (\<forall>p\<in>set (parents fl). exists_path (root w) p)
      \<longrightarrow> apply_change (steps (create_delete E r (root w) fl ws text0) ! 1)
          = fs_action (\<lambda>fs. alter unlink_entry fs fl))
   \<and> (\<forall>E r (w::world) fl ws text0.
      \<not> (\<forall>p\<in>set (parents fl). exists_path (root w) p)
      \<longrightarrow> (\<exists>d. d \<in> set (parents fl) \<and> \<not> exists_path (root w) d
               \<and> (\<forall>p\<in>set (parents fl). \<not> exists_path (root w) p \<longrightarrow> prefix d p)
               \<and> apply_change (steps (create_delete E r (root w) fl ws text0) ! 1)
                 = fs_action (\<lambda>fs. alter rmtree_entry fs d)))
   \<and> (\<forall>E r w fl ws text0 w1.
      apply_change (steps (create_delete E r (root w) fl ws text0) ! 0) w = (Inr (), w1)
      \<longrightarrow> apply_change (steps (create_delete E r (root w) fl ws text0) ! 1) w1 = (Inr (), w))"
proof (intro conjI allI impI)
  fix E r and w :: world and fl ws text0
  assume "\<forall>p\<in>set (parents fl). exists_path (root w) p"
  then have "missing_dirs (root w) fl = []"
    by (simp add: missing_dirs_def)
  then show "apply_change (steps (create_delete E r (root w) fl ws text0) ! 1)
          = fs_action (\<lambda>fs. alter unlink_entry fs fl)"
    by (auto simp: create_delete_steps shallowest_missing_dir_def delete_def fun_eq_iff)
next
  fix E r and w :: world and fl ws text0
  assume "\<not> (\<forall>p\<in>set (parents fl). exists_path (root w) p)"
  then have ne: "missing_dirs (root w) fl \<noteq> []"
    by (auto simp: missing_dirs_def filter_empty_conv)
  let ?d = "last (missing_dirs (root w) fl)"
  from ne have "?d \<in> set (missing_dirs (root w) fl)" by simp
  then have 1: "?d \<in> set (parents fl)" "\<not> exists_path (root w) ?d"
    by (simp_all add: missing_dirs_def)
  have 2: "\<forall>p\<in>set (parents fl). \<not> exists_path (root w) p \<longrightarrow> prefix ?d p"
    using last_missing_is_prefix [of _ "root w" fl] by (simp add: missing_dirs_def)
  have 3: "apply_change (steps (create_delete E r (root w) fl ws text0) ! 1)
                 = fs_action (\<lambda>fs. alter rmtree_entry fs ?d)"
    using ne by (auto simp: create_delete_steps shallowest_missing_dir_def delete_def)
  from 1 2 3
  show "\<exists>d. d \<in> set (parents fl) \<and> \<not> exists_path (root w) d
               \<and> (\<forall>p\<in>set (parents fl). \<not> exists_path (root w) p \<longrightarrow> prefix d p)
               \<and> apply_change (steps (create_delete E r (root w) fl ws text0) ! 1)
                 = fs_action (\<lambda>fs. alter rmtree_entry fs d)"
    by blast
next
  fix E r and w :: world and fl ws text0 w1
  assume "apply_change (steps (create_delete E r (root w) fl ws text0) ! 0) w = (Inr (), w1)"
  then show "apply_change (steps (create_delete E r (root w) fl ws text0) ! 1) w1 = (Inr (), w)"
    by (simp add: create_delete_steps create_then_delete)
qed

theorem create_delete_delete_step_witness:
  "\<not> exists_path (root hello_world) [''src'', ''new'']
   \<and> apply_change (steps (create_delete example_env 0 (root hello_world)
                            [''src'', ''new'', ''sub'', ''x.txt''] SYMLINK (Some (ascii ''x''))) ! 1)
       = fs_action (\<lambda>fs. alter rmtree_entry fs [''src'', ''new''])
   \<and> (\<exists>w1. apply_change (steps (create_delete example_env 0 (root hello_world)
                            [''src'', ''new'', ''sub'', ''x.txt''] SYMLINK (Some (ascii ''x''))) ! 0)
               hello_world = (Inr (), w1)
          \<and> apply_change (steps (create_delete example_env 0 (root hello_world)
                            [''src'', ''new'', ''sub'', ''x.txt''] SYMLINK (Some (ascii ''x''))) ! 1)
               w1 = (Inr (), hello_world))
   \<and> list_all (exists_path (root hello_world)) (parents [''src'', ''dir'', ''new.txt''])
   \<and> apply_change (steps (create_delete example_env 0 (root hello_world)
                            [''src'', ''dir'', ''new.txt''] SYMLINK None) ! 1)
       = fs_action (\<lambda>fs. alter unlink_entry fs [''src'', ''dir'', ''new.txt''])"
proof -
  let ?F = "[''src'', ''new'', ''sub'', ''x.txt'']"
  let ?g = "create_delete example_env 0 (root hello_world) ?F SYMLINK (Some (ascii ''x''))"
  note c1 = create_delete_delete_step [THEN conjunct1, rule_format]
  note c2 = create_delete_delete_step [THEN conjunct2, THEN conjunct1, rule_format]
  note c3 = create_delete_delete_step [THEN conjunct2, THEN conjunct2, rule_format]
  have ex: "exists_path (root hello_world) [''src'']" "exists_path (root hello_world) []"
    "\<not> exists_path (root hello_world) [''src'', ''new'']"
    "\<not> exists_path (root hello_world) [''src'', ''new'', ''sub'']"
    by (simp_all add: exists_path_def hello_world_def hello_fs_def)
  then have miss: "\<not> (\<forall>p\<in>set (parents ?F). exists_path (root hello_world) p)"
    by (simp add: parents_new)
  from c2 [OF miss, where E = example_env and r = 0 and ws = SYMLINK
      and ?text0.0 = "Some (ascii ''x'')"] obtain d where
    d: "d \<in> set (parents ?F)" "\<not> exists_path (root hello_world) d"
       "\<forall>p\<in>set (parents ?F). \<not> exists_path (root hello_world) p \<longrightarrow> prefix d p"
       "apply_change (steps ?g ! 1) = fs_action (\<lambda>fs. alter rmtree_entry fs d)"
    by blast
  from d(3) ex have "prefix d [''src'', ''new'']" by (simp add: parents_new)
  with d(1,2) ex have "d = [''src'', ''new'']" by (auto simp: parents_new)
  with d(4) have 2: "apply_change (steps ?g ! 1)
       = fs_action (\<lambda>fs. alter rmtree_entry fs [''src'', ''new''])" by simp
  from create_new_succeeds obtain w1 where
    "apply_change (steps ?g ! 0) hello_world = (Inr (), w1)"
    by (auto simp: create_delete_steps)
  with c3 [of example_env 0 hello_world ?F SYMLINK "Some (ascii ''x'')"]
  have 3: "\<exists>w1. apply_change (steps ?g ! 0) hello_world = (Inr (), w1)
      \<and> apply_change (steps ?g ! 1) w1 = (Inr (), hello_world)"
    by blast
  have all: "\<forall>p\<in>set (parents [''src'', ''dir'', ''new.txt'']). exists_path (root hello_world) p"
    by (simp add: parents_Cons exists_path_def hello_world_def hello_fs_def)
  then have 4: "list_all (exists_path (root hello_world)) (parents [''src'', ''dir'', ''new.txt''])"
    by (simp add: list_all_iff)
  from all c1 [of "[''src'', ''dir'', ''new.txt'']" hello_world example_env 0 SYMLINK None]
  have 5: "apply_change (steps (create_delete example_env 0 (root hello_world)
                            [''src'', ''dir'', ''new.txt''] SYMLINK None) ! 1)
       = fs_action (\<lambda>fs. alter unlink_entry fs [''src'', ''dir'', ''new.txt''])"
    by blast
  from ex(3) 2 3 4 5 show ?thesis by blast
qed

text \<open>What the unlinking does to a regular file: the file is gone, and nothing beside it has changed.\<close>

lemma alter_elsewhere:
  "alter f fs p = Inr fs' \<Longrightarrow> \<not> prefix p q \<Longrightarrow> \<not> prefix q p \<Longrightarrow> stat fs' q = stat fs q"
proof (induction f fs p arbitrary: fs' q rule: alter.induct)
  case (1 f n)
  then show ?case by simp
next
  case (2 f b c cs)
  then show ?case by simp
next
  case (3 f m c)
  then show ?case by (cases q) (auto split: sum.splits)
next
  case (4 f m c d cs)
  then show ?case by (cases q) (auto split: sum.splits option.splits)
qed

lemma alter_remove:
  "stat fs p = Inr n \<Longrightarrow> p \<noteq> [] \<Longrightarrow> f (Some n) = Inr None \<Longrightarrow>
   \<exists>fs'. alter f fs p = Inr fs' \<and> \<not> exists_path fs' p"
proof (induction f fs p rule: alter.induct)
  case (1 f n)
  then show ?case by simp
next
  case (2 f b c cs)
  then show ?case by simp
next
  case (3 f m c)
  then show ?case by (auto split: option.splits simp: exists_path_def)
next
  case (4 f m c d cs)
  then show ?case by (auto split: option.splits simp: exists_path_def)
qed

lemma unlink_removes_only_the_file:
  assumes s: "stat (root w) fl = Inr (File bs)" and ne: "fl \<noteq> []"
  shows "\<exists>fs'. fs_action (\<lambda>fs. alter unlink_entry fs fl) w = (Inr (), w\<lparr>root := fs'\<rparr>)
           \<and> \<not> exists_path fs' fl
           \<and> (\<forall>q. \<not> prefix fl q \<and> \<not> prefix q fl \<longrightarrow> stat fs' q = stat (root w) q)"
proof -
  have "unlink_entry (Some (File bs)) = Inr None" by (simp add: unlink_entry_def)
  from alter_remove [where f = unlink_entry, OF s ne this] obtain fs' where
    a: "alter unlink_entry (root w) fl = Inr fs'" and b: "\<not> exists_path fs' fl" by blast
  from a have "fs_action (\<lambda>fs. alter unlink_entry fs fl) w = (Inr (), w\<lparr>root := fs'\<rparr>)"
    by (simp add: fs_action_def)
  moreover from a have "\<forall>q. \<not> prefix fl q \<and> \<not> prefix q fl \<longrightarrow> stat fs' q = stat (root w) q"
    using alter_elsewhere by blast
  ultimately show ?thesis using b by blast
qed

text \<open>
  C4. Whenever the create step of a \<^verbatim>\<open>create_delete\<close> Group runs while the target exists,
  it raises \<^verbatim>\<open>RuntimeError\<close> and the filesystem is what it was: no directory is made and
  the existing content is not touched.
\<close>

theorem create_on_existing_target_raises:
  "exists_path (root w) fl \<Longrightarrow>
   apply_change (steps (create_delete E r fs fl ws text0) ! 0) w = (Inl RuntimeError, w)"
  by (simp add: create_delete_steps create_def)

theorem create_on_existing_target_raises_witness:
  "exists_path (root hello_world) [''src'', ''a.txt'']
   \<and> apply_change (steps (create_delete example_env 0 hello_fs [''src'', ''a.txt''] SYMLINK None) ! 0)
       hello_world = (Inl RuntimeError, hello_world)"
proof -
  have h: "exists_path (root hello_world) [''src'', ''a.txt'']"
    by (simp add: exists_path_def hello_world_def hello_fs_def)
  from h create_on_existing_target_raises [OF h] show ?thesis by simp
qed

section \<open>\<^verbatim>\<open>regex_modify_revert\<close>: the captured original text\<close>


lemma write_text_cells:
  "write_text fl t w = (res, w') \<Longrightarrow> cells w' = cells w"
  by (auto simp: write_text_def split: sum.splits option.splits)













lemma regex_modify_cells_other:
  "regex_modify E cell fl pat repl w = (Inr (), w1) \<Longrightarrow>
   \<exists>t. read_text (root w) fl = Inr t \<and> cells w1 = (cells w)(cell \<mapsto> t)"
  by (auto simp: regex_modify_def Let_def split: sum.splits dest!: write_text_cells)



section \<open>The canned variants of \<^verbatim>\<open>regex_modify_revert\<close>\<close>

lemma modify_private_method_shape:
  "\<exists>pat repl label. \<forall>E cell n fs fl.
     modify_private_method E cell n fs fl = regex_modify_revert E cell fs fl pat (repl n) label"
  unfolding modify_private_method_def Let_def by (intro exI allI) (rule refl)

lemma add_private_field_shape:
  "\<exists>pat repl label. \<forall>E cell n fs fl.
     add_private_field E cell n fs fl = regex_modify_revert E cell fs fl pat (repl n) label"
  unfolding add_private_field_def Let_def by (intro exI allI) (rule refl)

lemma add_public_api_shape:
  "\<exists>pat repl label. \<forall>E cell n fs fl.
     add_public_api E cell n fs fl = regex_modify_revert E cell fs fl pat (repl n) label"
  unfolding add_public_api_def Let_def by (intro exI allI) (rule refl)

lemma modify_resource_shape:
  "\<exists>pat repl label. \<forall>E cell n fs fl.
     modify_resource E cell n fs fl = regex_modify_revert E cell fs fl pat (repl n) label"
  unfolding modify_resource_def Let_def by (intro exI allI) (rule refl)

lemma add_resource_shape:
  "\<exists>pat repl label. \<forall>E cell n fs fl.
     add_resource E cell n fs fl = regex_modify_revert E cell fs fl pat (repl n) label"
  unfolding add_resource_def Let_def by (intro exI allI) (rule refl)

lemma canned_shape:
  "list_all (\<lambda>v. \<exists>pat repl label. \<forall>E cell n fs fl.
       v E cell n fs fl = regex_modify_revert E cell fs fl pat (repl n) label) canned_variants"
  using modify_private_method_shape add_private_field_shape add_public_api_shape
    modify_resource_shape add_resource_shape
  by (simp add: canned_variants_def)

lemma canned_labels:
  "exists_path fs fl \<Longrightarrow>
   map (\<lambda>v. case v E cell n fs fl of Inl e \<Rightarrow> [] | Inr g \<Rightarrow> verb (steps g ! 0)) canned_variants
   = [''modify_private_method'', ''add_private_field'', ''add_public_api'',
      ''modify_resource'', ''add_resource'']"
  by (simp add: canned_variants_def modify_private_method_def add_private_field_def
      add_public_api_def modify_resource_def add_resource_def regex_modify_revert_def Let_def)

text \<open>
  C5, as the claim states it, fails. The claim: \<^verbatim>\<open>regex_modify_revert\<close> has exactly four
  canned variants, one of them editing or adding a resource entry. The module defines five
  wrappers; run on one existing file they give five different labels, and editing a resource
  entry (\<^verbatim>\<open>modify_resource\<close>) and adding one (\<^verbatim>\<open>add_resource\<close>) are two of them.
\<close>

theorem five_canned_variants:
  "length canned_variants \<noteq> 4
   \<and> map (\<lambda>v. case v example_env 0 7 (root res_world) [''src'', ''config.xml''] of
                 Inl e \<Rightarrow> [] | Inr g \<Rightarrow> verb (steps g ! 0)) canned_variants
     = [''modify_private_method'', ''add_private_field'', ''add_public_api'',
        ''modify_resource'', ''add_resource'']
   \<and> ''modify_resource'' \<noteq> ''add_resource''"
proof -
  have "exists_path (root res_world) [''src'', ''config.xml'']"
    by (simp add: res_world_def exists_path_def)
  from canned_labels [OF this] show ?thesis
    by (simp add: canned_variants_def)
qed

text \<open>
  C5, amended. \<^verbatim>\<open>regex_modify_revert\<close> has five canned variants. Each is
  \<^verbatim>\<open>regex_modify_revert\<close> at a pattern, a replacement (which embeds the random number) and
  a label of its own, and nothing else; on an existing file their labels are
  \<^verbatim>\<open>modify_private_method\<close>, \<^verbatim>\<open>add_private_field\<close>, \<^verbatim>\<open>add_public_api\<close>,
  \<^verbatim>\<open>modify_resource\<close> and \<^verbatim>\<open>add_resource\<close>, all different.
\<close>

theorem canned_variants_differ_in_pattern_and_label:
  "list_all (\<lambda>v. \<exists>pat repl label. \<forall>E cell n fs fl.
       v E cell n fs fl = regex_modify_revert E cell fs fl pat (repl n) label) canned_variants
   \<and> length canned_variants = 5
   \<and> (\<forall>E cell n fs fl. exists_path fs fl \<longrightarrow>
        map (\<lambda>v. case v E cell n fs fl of Inl e \<Rightarrow> [] | Inr g \<Rightarrow> verb (steps g ! 0))
          canned_variants
        = [''modify_private_method'', ''add_private_field'', ''add_public_api'',
           ''modify_resource'', ''add_resource''])
   \<and> distinct [''modify_private_method'', ''add_private_field'', ''add_public_api'',
               ''modify_resource'', ''add_resource'']"
  using canned_shape canned_labels by (simp add: canned_variants_def)

theorem canned_variants_differ_in_pattern_and_label_witness:
  "exists_path (root res_world) [''src'', ''config.xml'']
   \<and> map (\<lambda>v. case v example_env 0 7 (root res_world) [''src'', ''config.xml''] of
                 Inl e \<Rightarrow> [] | Inr g \<Rightarrow> verb (steps g ! 0)) canned_variants
     = [''modify_private_method'', ''add_private_field'', ''add_public_api'',
        ''modify_resource'', ''add_resource'']"
proof -
  have h: "exists_path (root res_world) [''src'', ''config.xml'']"
    by (simp add: res_world_def exists_path_def)
  from canned_variants_differ_in_pattern_and_label
    [THEN conjunct2, THEN conjunct2, THEN conjunct1, rule_format, OF h] h
  show ?thesis by simp
qed

section \<open>\<^verbatim>\<open>delete_restore\<close>: where the file is moved\<close>

lemma split_slash_no_slash: "CHR ''/'' \<notin> set s \<Longrightarrow> split_slash s = [s]"
  by (induction s) auto

lemma joinpath_component:
  "CHR ''/'' \<notin> set s \<Longrightarrow> s \<noteq> [] \<Longrightarrow> s \<noteq> ''.'' \<Longrightarrow> joinpath p s = p @ [s]"
  by (cases s) (auto simp: joinpath_def parse_parts_def split_slash_no_slash)

lemma hex_char_in: "hex_char (v mod 16) \<in> set ''0123456789abcdef''"
proof -
  have "v mod 16 < length ''0123456789abcdef''" by simp
  then show ?thesis unfolding hex_char_def by (rule nth_mem)
qed

lemma hex_digits_no_slash: "CHR ''/'' \<notin> set (hex_digits k v)"
proof (induction k arbitrary: v)
  case 0
  show ?case by simp
next
  case (Suc k)
  have "hex_char (v mod 16) \<noteq> CHR ''/''"
    using hex_char_in [of v] by auto
  with Suc show ?case by simp
qed

lemma uuid_str_no_slash: "CHR ''/'' \<notin> set (uuid_str u)"
  by (simp add: uuid_str_def hex_digits_no_slash)

lemma copied_path_eq:
  "CHR ''/'' \<notin> set (name original) \<Longrightarrow>
   copied_path E r original = tempdir E @ [name original @ ''-'' @ uuid_str (uuid4 r) @ ''.bak'']"
  unfolding copied_path_def
  by (rule joinpath_component) (auto simp: uuid_str_no_slash)


lemma uuid0: "uuid_str (uuid4 0) = ''00000000-0000-4000-8000-000000000000''"
  by (simp add: uuid_str_def uuid4_def hex_char_def hex_digits_unfold)


lemma copied_clash:
  "copied_path clash_env 0 [''src'', ''a.txt'']
   = [''tmp'', ''a.txt-00000000-0000-4000-8000-000000000000.bak'']"
  by (simp add: copied_path_eq name_def example_env_def clash_env_def uuid0)




text \<open>
  The condition on the drawn name is needed. With the temporary directory \<^verbatim>\<open>/tmp\<close>, the
  source tree \<^verbatim>\<open>/src\<close> and the output directory set to
  \<^verbatim>\<open>/tmp/a.txt-00000000-0000-4000-8000-000000000000.bak\<close> (not there yet), neither check
  fires, and should the uuid drawn be that very one, the delete step moves \<^verbatim>\<open>/src/a.txt\<close>
  onto the path of the output directory.
\<close>

lemma delete_restore_uuid_collision:
  "\<exists>g w1. delete_restore clash_env 0 [''src'', ''a.txt''] SYMLINK = Inr g
     \<and> \<not> is_relative_to (tempdir clash_env) (top_dir clash_env)
     \<and> \<not> is_relative_to (tempdir clash_env) (out_dir clash_env)
     \<and> stat (root hello_world) [''src'', ''a.txt''] = Inr (File hello)
     \<and> apply_change (steps g ! 0) hello_world = (Inr (), w1)
     \<and> stat (root w1) (out_dir clash_env) = Inr (File hello)
     \<and> is_relative_to (out_dir clash_env) (out_dir clash_env)"
proof -
  have 1: "\<not> is_relative_to (tempdir clash_env) (top_dir clash_env)"
    "\<not> is_relative_to (tempdir clash_env) (out_dir clash_env)"
    by (simp_all add: is_relative_to_def clash_env_def example_env_def)
  then have 2: "delete_restore clash_env 0 [''src'', ''a.txt''] SYMLINK
     = Inr \<lparr>description = ''a.txt'',
            steps = [\<lparr>verb = ''delete'',
                      apply_change = fs_action (rename_path [''src'', ''a.txt'']
                         [''tmp'', ''a.txt-00000000-0000-4000-8000-000000000000.bak'']),
                      verify = ws_verifier OMISSION [''src'', ''a.txt'']\<rparr>,
                     \<lparr>verb = ''restore'',
                      apply_change = fs_action (rename_path
                         [''tmp'', ''a.txt-00000000-0000-4000-8000-000000000000.bak'']
                         [''src'', ''a.txt'']),
                      verify = ws_verifier SYMLINK [''src'', ''a.txt'']\<rparr>]\<rparr>"
    by (simp add: delete_restore_def Let_def copied_clash) (simp add: clash_env_def example_env_def)
  have 3: "fs_action (rename_path [''src'', ''a.txt'']
                         [''tmp'', ''a.txt-00000000-0000-4000-8000-000000000000.bak'']) hello_world
     = (Inr (), \<lparr>root = Dir (Map.empty(''src'' \<mapsto> Dir (Map.empty(''dir'' \<mapsto> Dir Map.empty)),
                    ''tmp'' \<mapsto> Dir (Map.empty(''a.txt-00000000-0000-4000-8000-000000000000.bak''
                                           \<mapsto> File hello)))),
                 cells = Map.empty\<rparr>)"
    by (simp add: fs_action_def rename_path_def hello_world_def hello_fs_def rename_entry_def
        remove_entry_def is_Dir_def fun_upd_twist)
  have 4: "stat (root hello_world) [''src'', ''a.txt''] = Inr (File hello)"
    by (simp add: hello_world_def hello_fs_def)
  have 5: "out_dir clash_env = [''tmp'', ''a.txt-00000000-0000-4000-8000-000000000000.bak'']"
    by (simp add: clash_env_def)
  show ?thesis using 1 2 3 4 by (simp add: 5 is_relative_to_def)
qed

section \<open>The build-file recipes\<close>

lemma bind_err_Inr: "bind_err m f = Inr y \<longleftrightarrow> (\<exists>x. m = Inr x \<and> f x = Inr y)"
  by (cases m) (simp_all add: bind_err_def)

lemma bind_err_Inl [simp]: "bind_err (Inl e) f = Inl e"
  by (simp add: bind_err_def)

lemma bind_err_Inr_simp [simp]: "bind_err (Inr x) f = f x"
  by (simp add: bind_err_def)

lemma unpack2_create_delete:
  "unpack2 (steps (create_delete E r fs fl ws text0))
   = Inr (steps (create_delete E r fs fl ws text0) ! 0, steps (create_delete E r fs fl ws text0) ! 1)"
  by (simp add: create_delete_steps)

text \<open>
  C10. \<^verbatim>\<open>create_delete_kept_build_file(build_file)\<close> raises \<^verbatim>\<open>RuntimeError\<close> if and only
  if the name of \<^verbatim>\<open>build_file\<close> is neither \<^verbatim>\<open>BUILD\<close> nor \<^verbatim>\<open>BUILD.bazel\<close>, and it raises
  nothing else; for \<^verbatim>\<open>BUILD.bazel\<close> the create step verifies \<^verbatim>\<open>NOT_UNDER_SYMLINK\<close> (and
  then that the merged build file holds the marker line), for \<^verbatim>\<open>BUILD\<close> it verifies
  \<^verbatim>\<open>SYMLINK\<close>. The workspace counterpart of the file, which \<^verbatim>\<open>cuj.py\<close> computes, is taken
  to be a path with a name, so that \<^verbatim>\<open>with_name\<close> accepts it.
\<close>

theorem kept_build_file_name_check:
  "name (ws_counterpart E build_file) \<noteq> [] \<Longrightarrow>
   (create_delete_kept_build_file E r fs build_file = Inl RuntimeError
      \<longleftrightarrow> name build_file \<noteq> ''BUILD'' \<and> name build_file \<noteq> ''BUILD.bazel'')
   \<and> (\<forall>e. create_delete_kept_build_file E r fs build_file = Inl e \<longrightarrow> e = RuntimeError)
   \<and> (name build_file = ''BUILD.bazel'' \<longrightarrow>
        (\<exists>g. create_delete_kept_build_file E r fs build_file = Inr g
           \<and> verb (steps g ! 0) = ''create''
           \<and> apply_change (steps g ! 0) = create build_file (bogus_line r)
           \<and> verify (steps g ! 0)
             = sequence [ws_verifier NOT_UNDER_SYMLINK build_file,
                         contains (butlast (ws_counterpart E build_file) @ [''BUILD.bazel''])
                           (bogus_line r)]))
   \<and> (name build_file = ''BUILD'' \<longrightarrow>
        (\<exists>g. create_delete_kept_build_file E r fs build_file = Inr g
           \<and> verb (steps g ! 0) = ''create''
           \<and> apply_change (steps g ! 0) = create build_file (bogus_line r)
           \<and> verify (steps g ! 0)
             = sequence [ws_verifier SYMLINK build_file,
                         contains (butlast (ws_counterpart E build_file) @ [''BUILD.bazel''])
                           (bogus_line r)]))"
  by (auto simp: create_delete_kept_build_file_def with_name_def Let_def content_verfiers_def
      create_delete_steps wrap_steps_def)

theorem kept_build_file_name_check_witness:
  "name (ws_counterpart example_env [''src'', ''build'', ''bazel'', ''compliance'', ''BUILD.bazel''])
     \<noteq> []
   \<and> create_delete_kept_build_file example_env 0 hello_fs
        [''src'', ''build'', ''bazel'', ''compliance'', ''Android.bp''] = Inl RuntimeError
   \<and> (\<exists>g. create_delete_kept_build_file example_env 0 hello_fs
          [''src'', ''build'', ''bazel'', ''compliance'', ''BUILD.bazel''] = Inr g
        \<and> verify (steps g ! 0)
          = sequence [ws_verifier NOT_UNDER_SYMLINK
                        [''src'', ''build'', ''bazel'', ''compliance'', ''BUILD.bazel''],
                      contains [''src'', ''out'', ''soong'', ''workspace'', ''build'', ''bazel'',
                                ''compliance'', ''BUILD.bazel''] (bogus_line 0)])"
proof -
  let ?b = "[''src'', ''build'', ''bazel'', ''compliance'', ''BUILD.bazel'']"
  let ?a = "[''src'', ''build'', ''bazel'', ''compliance'', ''Android.bp'']"
  have h: "name (ws_counterpart example_env ?b) \<noteq> []"
    by (simp add: name_def example_env_def)
  have h': "name (ws_counterpart example_env ?a) \<noteq> []"
    by (simp add: name_def example_env_def)
  have n: "name ?b = ''BUILD.bazel''" "name ?a \<noteq> ''BUILD''" "name ?a \<noteq> ''BUILD.bazel''"
    by (simp_all add: name_def)
  from kept_build_file_name_check [OF h', of 0 hello_fs] n
  have 1: "create_delete_kept_build_file example_env 0 hello_fs ?a = Inl RuntimeError"
    by blast
  from kept_build_file_name_check [OF h, of 0 hello_fs] n
  obtain g where "create_delete_kept_build_file example_env 0 hello_fs ?b = Inr g"
    "verify (steps g ! 0)
       = sequence [ws_verifier NOT_UNDER_SYMLINK ?b,
                   contains (butlast (ws_counterpart example_env ?b) @ [''BUILD.bazel''])
                     (bogus_line 0)]"
    by blast
  with h 1 show ?thesis by (auto simp: example_env_def)
qed

text \<open>
  Without a name on the workspace counterpart, \<^verbatim>\<open>with_name\<close> raises before the name of
  the build file is looked at.
\<close>

lemma kept_build_file_nameless_counterpart:
  "name (ws_counterpart E build_file) = [] \<Longrightarrow>
   create_delete_kept_build_file E r fs build_file = Inl ValueError"
  by (simp add: create_delete_kept_build_file_def with_name_def Let_def)


section \<open>Catalog assembly: the confirmations\<close>

lemma get_cujgroups_Inr:
  "get_cujgroups E rnd fs = Inr gs \<Longrightarrow>
   (\<exists>u. confirm_pkg E fs = Inr u) \<and> (\<exists>u. confirm_pkg_free E fs = Inr u)
   \<and> (\<exists>u. confirm_ancestor E fs = Inr u) \<and> (\<exists>u. confirm_leaf_pkg_free E fs = Inr u)
   \<and> (\<exists>u. confirm_unkept E fs = Inr u) \<and> (\<exists>u. confirm_kept E fs = Inr u)"
  unfolding get_cujgroups_def Let_def bind_err_Inr unkept_build_cujs_def kept_build_cujs_def
  by blast

lemma top_confirm_fails:
  "confirm_pkg E fs = Inl e \<Longrightarrow> get_cujgroups E rnd fs = Inl e"
  "confirm_pkg E fs = Inr u1 \<Longrightarrow> confirm_pkg_free E fs = Inl e \<Longrightarrow> get_cujgroups E rnd fs = Inl e"
  "confirm_pkg E fs = Inr u1 \<Longrightarrow> confirm_pkg_free E fs = Inr u2 \<Longrightarrow> confirm_ancestor E fs = Inl e
     \<Longrightarrow> get_cujgroups E rnd fs = Inl e"
  "confirm_pkg E fs = Inr u1 \<Longrightarrow> confirm_pkg_free E fs = Inr u2 \<Longrightarrow> confirm_ancestor E fs = Inr u3
     \<Longrightarrow> confirm_leaf_pkg_free E fs = Inl e \<Longrightarrow> get_cujgroups E rnd fs = Inl e"
  by (simp_all add: get_cujgroups_def Let_def)

lemma section_confirm_fails:
  "confirm_unkept E fs = Inl e \<Longrightarrow> unkept_build_cujs E rnd fs = Inl e"
  "confirm_kept E fs = Inl e \<Longrightarrow> kept_build_cujs E rnd fs = Inl e"
  by (simp_all add: unkept_build_cujs_def kept_build_cujs_def Let_def)

lemma sequence_err_length: "sequence_err ms = Inr xs \<Longrightarrow> length xs = length ms"
  by (induction ms arbitrary: xs) (auto split: sum.splits)

lemma catalog_length: "get_cujgroups E rnd fs = Inr gs \<Longrightarrow> length gs = 41"
  unfolding get_cujgroups_def Let_def bind_err_Inr unkept_build_cujs_def kept_build_cujs_def
  by (auto simp del: sequence_err.simps dest!: sequence_err_length)

lemma full_catalog: "\<exists>gs. get_cujgroups example_env (\<lambda>i. 0) full_fs = Inr gs"
  by (simp add: get_cujgroups_def full_fs_def mkdirs_def example_env_def joinpath_def parse_parts_def
      settings_java_def ams_java_def config_xml_def exists_path_def Let_def
      confirm_pkg_def confirm_pkg_free_def confirm_ancestor_def confirm_leaf_pkg_free_def
      confirm_unkept_def confirm_kept_def unkept_build_cujs_def kept_build_cujs_def
      modify_revert_def modify_private_method_def add_private_field_def add_public_api_def
      modify_resource_def add_resource_def regex_modify_revert_def delete_restore_def
      is_relative_to_def replace_link_with_dir_def create_delete_steps create_delete_bp_def
      create_delete_kept_build_file_def create_delete_unkept_build_file_def
      modify_revert_kept_build_file_def with_name_def name_def content_verfiers_def)

lemma src_example:
  "src (failing_env d) ''art'' = [''src'', ''art'']"
  "src (failing_env d) ''bionic/libm'' = [''src'', ''bionic'', ''libm'']"
  by (simp_all add: failing_env_def example_env_def joinpath_def parse_parts_def)

text \<open>
  C8. If a structural confirmation fails while the catalog is assembled, \<^verbatim>\<open>get_cujgroups\<close>
  raises and returns no list. The four confirmations at its head come before any Group is
  built: the first of them to fail gives the error of \<^verbatim>\<open>get_cujgroups\<close>, whatever the
  filesystem holds. The confirmation of the kept and of the unkept section comes before the
  Groups of that section: when it fails, its error is the error of the section. And a
  failing confirmation, whichever it is, leaves \<^verbatim>\<open>get_cujgroups\<close> with an error; a list,
  when one is returned, is the whole catalog of 41 Groups.
\<close>

theorem confirm_failure_aborts_catalog:
  "(confirm_pkg E fs = Inl e \<longrightarrow> get_cujgroups E rnd fs = Inl e)
   \<and> (confirm_pkg E fs = Inr () \<and> confirm_pkg_free E fs = Inl e
        \<longrightarrow> get_cujgroups E rnd fs = Inl e)
   \<and> (confirm_pkg E fs = Inr () \<and> confirm_pkg_free E fs = Inr ()
        \<and> confirm_ancestor E fs = Inl e \<longrightarrow> get_cujgroups E rnd fs = Inl e)
   \<and> (confirm_pkg E fs = Inr () \<and> confirm_pkg_free E fs = Inr ()
        \<and> confirm_ancestor E fs = Inr () \<and> confirm_leaf_pkg_free E fs = Inl e
        \<longrightarrow> get_cujgroups E rnd fs = Inl e)
   \<and> (confirm_unkept E fs = Inl e \<longrightarrow> unkept_build_cujs E rnd fs = Inl e)
   \<and> (confirm_kept E fs = Inl e \<longrightarrow> kept_build_cujs E rnd fs = Inl e)
   \<and> ((\<exists>x. confirm_pkg E fs = Inl x) \<or> (\<exists>x. confirm_pkg_free E fs = Inl x)
        \<or> (\<exists>x. confirm_ancestor E fs = Inl x) \<or> (\<exists>x. confirm_leaf_pkg_free E fs = Inl x)
        \<or> (\<exists>x. confirm_unkept E fs = Inl x) \<or> (\<exists>x. confirm_kept E fs = Inl x)
        \<longrightarrow> (\<exists>x. get_cujgroups E rnd fs = Inl x))
   \<and> (\<forall>gs. get_cujgroups E rnd fs = Inr gs \<longrightarrow> length gs = 41)"
proof -
  have last: "(\<exists>x. confirm_pkg E fs = Inl x) \<or> (\<exists>x. confirm_pkg_free E fs = Inl x)
        \<or> (\<exists>x. confirm_ancestor E fs = Inl x) \<or> (\<exists>x. confirm_leaf_pkg_free E fs = Inl x)
        \<or> (\<exists>x. confirm_unkept E fs = Inl x) \<or> (\<exists>x. confirm_kept E fs = Inl x)
        \<longrightarrow> (\<exists>x. get_cujgroups E rnd fs = Inl x)"
  proof
    assume a: "(\<exists>x. confirm_pkg E fs = Inl x) \<or> (\<exists>x. confirm_pkg_free E fs = Inl x)
        \<or> (\<exists>x. confirm_ancestor E fs = Inl x) \<or> (\<exists>x. confirm_leaf_pkg_free E fs = Inl x)
        \<or> (\<exists>x. confirm_unkept E fs = Inl x) \<or> (\<exists>x. confirm_kept E fs = Inl x)"
    show "\<exists>x. get_cujgroups E rnd fs = Inl x"
    proof (cases "get_cujgroups E rnd fs")
      case (Inl x)
      then show ?thesis by blast
    next
      case (Inr gs)
      from get_cujgroups_Inr [OF this] a show ?thesis by auto
    qed
  qed
  show ?thesis
    using top_confirm_fails [of E fs] section_confirm_fails [of E fs] last
      catalog_length [of E rnd fs]
    by blast
qed

theorem confirm_failure_aborts_catalog_witness:
  "confirm_pkg (failing_env [''src'', ''art'']) hello_fs = Inl (ExternalError ''confirm'')
   \<and> get_cujgroups (failing_env [''src'', ''art'']) (\<lambda>i. 0) hello_fs
       = Inl (ExternalError ''confirm'')
   \<and> confirm_unkept (failing_env [''src'', ''bionic'', ''libm'']) hello_fs
       = Inl (ExternalError ''confirm'')
   \<and> unkept_build_cujs (failing_env [''src'', ''bionic'', ''libm'']) (\<lambda>i. 0) hello_fs
       = Inl (ExternalError ''confirm'')
   \<and> (\<exists>x. get_cujgroups (failing_env [''src'', ''bionic'', ''libm'']) (\<lambda>i. 0) hello_fs = Inl x)
   \<and> (\<exists>gs. get_cujgroups example_env (\<lambda>i. 0) full_fs = Inr gs \<and> length gs = 41)"
proof -
  have 1: "confirm_pkg (failing_env [''src'', ''art'']) hello_fs = Inl (ExternalError ''confirm'')"
    by (simp add: confirm_pkg_def src_example) (simp add: failing_env_def)
  have 2: "confirm_unkept (failing_env [''src'', ''bionic'', ''libm'']) hello_fs
       = Inl (ExternalError ''confirm'')"
    by (simp add: confirm_unkept_def src_example) (simp add: failing_env_def)
  note t1 = confirm_failure_aborts_catalog
    [of "failing_env [''src'', ''art'']" hello_fs "ExternalError ''confirm''" "\<lambda>i. 0"]
  note t2 = confirm_failure_aborts_catalog
    [of "failing_env [''src'', ''bionic'', ''libm'']" hello_fs "ExternalError ''confirm''" "\<lambda>i. 0"]
  from t1 1 have 3: "get_cujgroups (failing_env [''src'', ''art'']) (\<lambda>i. 0) hello_fs
       = Inl (ExternalError ''confirm'')" by blast
  from t2 2 have 4: "unkept_build_cujs (failing_env [''src'', ''bionic'', ''libm'']) (\<lambda>i. 0) hello_fs
       = Inl (ExternalError ''confirm'')" by blast
  from t2 2 have 5: "\<exists>x. get_cujgroups (failing_env [''src'', ''bionic'', ''libm'']) (\<lambda>i. 0) hello_fs = Inl x"
    by blast
  from full_catalog obtain gs where gs: "get_cujgroups example_env (\<lambda>i. 0) full_fs = Inr gs"
    by blast
  from confirm_failure_aborts_catalog [of example_env full_fs undefined "\<lambda>i. 0"] gs
  have "length gs = 41" by blast
  with gs have 6: "\<exists>gs. get_cujgroups example_env (\<lambda>i. 0) full_fs = Inr gs \<and> length gs = 41"
    by blast
  from 1 2 3 4 5 6 show ?thesis by blast
qed

end
